theory Spec2Isabelle
  imports Main "HOL-Library.Char_ord" "HOL-Library.List_Lexorder" "HOL-Library.AList"
begin

section \<open>JavaScript strings\<close>

text \<open>
  A JavaScript string is a sequence of UTF-16 code units. The model uses \<^typ>\<open>string\<close>:
  a \<^typ>\<open>char\<close> stands for a code unit below 256 (ASCII and Latin-1), which covers the
  literals of the program (\<open>dm:\<close>, \<open>-\<close>, \<open>:\<close>, \<open>@bot\<close>). The order on strings is the
  lexicographic order on code units, which is what \<open>Array.prototype.sort\<close> without a
  comparator uses.
\<close>

text \<open>\<open>String.prototype.startsWith\<close>\<close>

definition startsWith :: "string \<Rightarrow> string \<Rightarrow> bool" where
  "startsWith s p = (take (length p) s = p)"

text \<open>\<open>Array.prototype.join\<close> on an array of strings\<close>

fun join :: "string \<Rightarrow> string list \<Rightarrow> string" where
  "join sep [] = []"
| "join sep [x] = x"
| "join sep (x # y # ys) = x @ sep @ join sep (y # ys)"

text \<open>
  \<open>String.prototype.split\<close> with a separator of one code unit: the result is never
  empty, \<open>''''.split('-')\<close> is \<open>['''']\<close>.
\<close>

fun split :: "string \<Rightarrow> char \<Rightarrow> string list" where
  "split [] c = [[]]"
| "split (x # xs) c =
     (if x = c then [] # split xs c
      else (case split xs c of
              [] \<Rightarrow> [[x]]
            | y # ys \<Rightarrow> (x # y) # ys))"

text \<open>\<open>Array.prototype.find\<close>: the first element satisfying the predicate, or \<open>undefined\<close>.\<close>

fun find_js :: "('a \<Rightarrow> bool) \<Rightarrow> 'a list \<Rightarrow> 'a option" where
  "find_js P [] = None"
| "find_js P (x # xs) = (if P x then Some x else find_js P xs)"

text \<open>
  \<open>String.prototype.trim\<close> removes white space and line terminators at both ends. Among
  the code units below 256 these are TAB, LF, VT, FF, CR, SPACE and NO-BREAK SPACE.
\<close>

definition isWhiteSpace :: "char \<Rightarrow> bool" where
  "isWhiteSpace c = ((of_char c :: nat) \<in> {9, 10, 11, 12, 13, 32, 160})"

definition trim :: "string \<Rightarrow> string" where
  "trim s = rev (dropWhile isWhiteSpace (rev (dropWhile isWhiteSpace s)))"

text \<open>
  \<open>String.prototype.toLowerCase\<close> on code units below 256: the ASCII capitals and the
  Latin-1 capitals (\<open>0xC0\<close> to \<open>0xDE\<close> without the multiplication sign \<open>0xD7\<close>) move
  up by 32, every other code unit stays.
\<close>

definition toLowerCaseUnit :: "char \<Rightarrow> char" where
  "toLowerCaseUnit c =
     (let n = (of_char c :: nat)
      in if (65 \<le> n \<and> n \<le> 90) \<or> (192 \<le> n \<and> n \<le> 222 \<and> n \<noteq> 215)
         then char_of (n + 32) else c)"

definition toLowerCase :: "string \<Rightarrow> string" where
  "toLowerCase s = map toLowerCaseUnit s"

text \<open>
  \<open>content.replace(/@bot/gi, '')\<close>: the regular expression is scanned from left to
  right, every match is dropped and the scan goes on behind it. With the flag \<open>i\<close> a
  code unit matches a letter of the pattern when both have the same canonical form; for
  the four code units of \<open>@bot\<close> that is the case for \<open>@\<close>, \<open>b\<close>/\<open>B\<close>, \<open>o\<close>/\<open>O\<close> and
  \<open>t\<close>/\<open>T\<close> only, which are the code units that \<open>toLowerCase\<close> sends to the pattern.
\<close>

definition matchesBot :: "string \<Rightarrow> bool" where
  "matchesBot s = (toLowerCase (take 4 s) = ''@bot'')"

fun replaceBot :: "string \<Rightarrow> string" where
  "replaceBot [] = []"
| "replaceBot (c # cs) =
     (if matchesBot (c # cs) then replaceBot (drop 3 cs) else c # replaceBot cs)"

section \<open>Chat.js: direct-message room names\<close>

text \<open>
  \<^verbatim>\<open>const getDMRoomName = (user1, user2) => [user1, user2].sort().join('-');\<close>
\<close>

definition getDMRoomName :: "string \<Rightarrow> string \<Rightarrow> string" where
  "getDMRoomName user1 user2 = join ''-'' (sort [user1, user2])"

text \<open>
  The room name computed in \<open>handleDMClick\<close>:
  \<^verbatim>\<open>const dmRoomName = `dm:${getDMRoomName(username, dmUsername)}`;\<close>
\<close>

definition dmRoomName :: "string \<Rightarrow> string \<Rightarrow> string" where
  "dmRoomName username dmUsername = ''dm:'' @ getDMRoomName username dmUsername"

text \<open>The named channels offered by the sidebar of \<open>Chat.js\<close>.\<close>

definition channels :: "string list" where
  "channels = [''general'', ''random'', ''tech'', ''gaming'']"

section \<open>Chat.js: sending a message\<close>

text \<open>The events that \<open>handleSubmit\<close> emits on the socket.\<close>

datatype client_event =
  EmitChatMessage string string
| EmitStopTyping string

text \<open>
  \<open>handleSubmit\<close>, with the input field \<open>message\<close>, the current \<open>room\<close> and whether
  \<open>socket?.connected\<close> holds. It returns the events emitted and the new input field.
\<close>

definition handleSubmit :: "string \<Rightarrow> string \<Rightarrow> bool \<Rightarrow> client_event list \<times> string" where
  "handleSubmit message room connected =
     (if trim message \<noteq> [] \<and> connected
      then ([EmitChatMessage room (trim message), EmitStopTyping room], [])
      else ([], message))"

section \<open>server.js: state\<close>

text \<open>The rows of the tables \<open>users\<close> and \<open>messages\<close> behind Prisma.\<close>

record user_row =
  user_id :: nat
  user_username :: string
  user_password_hash :: string

record message_row =
  msg_content :: string
  msg_room :: string
  msg_userId :: nat
  msg_createdAt :: nat

text \<open>The payload of \<open>chatMessage\<close> and of the entries of \<open>loadHistory\<close>.\<close>

record chat_data =
  data_content :: string
  data_username :: string
  data_createdAt :: nat

datatype event =
  UpdateUserList "string list"
| LoadHistory "chat_data list"
| ChatMessage chat_data
| Typing string
| StopTyping string

text \<open>
  Everything a handler does to the outside is appended to a trace: an event delivered
  to the socket of the given id, a call of Prisma, a call of \<open>getAIResponse\<close> with its
  prompt, the request to the generation service, and \<open>console.error\<close>.
\<close>

datatype effect =
  Emit string event
| MessageCreate message_row
| MessageFindMany string
| UserFindUnique string
| UserCreate user_row
| GetAIResponse string
| Fetch string
| ConsoleError

text \<open>
  A connected socket: \<open>socket.user\<close> as decoded by the handshake (\<open>id\<close> and
  \<open>username\<close>; \<open>socket.username\<close> is a copy of the latter) and the rooms of socket.io
  the socket is in.
\<close>

record sock =
  sock_user_id :: nat
  sock_username :: string
  sock_rooms :: "string list"

text \<open>
  \<open>userSockets\<close> is the \<open>Map\<close> from user name to socket id: an association list in
  insertion order, which is the order of \<open>userSockets.keys()\<close>. \<open>sockets\<close> are the
  connected sockets of the socket.io server by id, in the order of connection.
\<close>

record server =
  userSockets :: "(string \<times> string) list"
  sockets :: "(string \<times> sock) list"
  users :: "user_row list"
  messages :: "message_row list"
  trace :: "effect list"

text \<open>
  What the outside world answers during one run of a handler: whether the environment
  variable is set, whether each call of Prisma succeeds (and the creation time the
  database assigns), and what the generation service returns.
\<close>

datatype fetch_outcome =
  FetchThrows
| ResponseNotOk
| ResponseOk "string option"

record outcomes =
  OPENAI_API_KEY :: "string option"
  message_create :: "nat option"
  message_findMany :: bool
  fetch_result :: fetch_outcome
  user_findUnique :: bool
  user_create :: "string option"
  bot_message_create :: "nat option"

section \<open>server.js: socket.io\<close>

definition log_effects :: "effect list \<Rightarrow> server \<Rightarrow> server" where
  "log_effects es st = st\<lparr>trace := trace st @ es\<rparr>"

definition emit_to :: "string list \<Rightarrow> event \<Rightarrow> server \<Rightarrow> server" where
  "emit_to sids ev st = log_effects (map (\<lambda>s. Emit s ev) sids) st"

text \<open>The ids of the sockets that are in a room.\<close>

definition in_room :: "string \<Rightarrow> server \<Rightarrow> string list" where
  "in_room room st = map fst (filter (\<lambda>(s, sk). room \<in> set (sock_rooms sk)) (sockets st))"

text \<open>\<open>io.emit\<close>, \<open>io.to(room).emit\<close>, \<open>socket.emit\<close> and \<open>socket.to(room).emit\<close>.\<close>

definition io_emit :: "event \<Rightarrow> server \<Rightarrow> server" where
  "io_emit ev st = emit_to (map fst (sockets st)) ev st"

definition io_to_emit :: "string \<Rightarrow> event \<Rightarrow> server \<Rightarrow> server" where
  "io_to_emit room ev st = emit_to (in_room room st) ev st"

definition socket_emit :: "string \<Rightarrow> event \<Rightarrow> server \<Rightarrow> server" where
  "socket_emit sid ev st = emit_to [sid] ev st"

definition socket_to_emit :: "string \<Rightarrow> string \<Rightarrow> event \<Rightarrow> server \<Rightarrow> server" where
  "socket_to_emit sid room ev st = emit_to (filter (\<lambda>s. s \<noteq> sid) (in_room room st)) ev st"

text \<open>\<open>socket.join(room)\<close>\<close>

definition socket_join :: "string \<Rightarrow> string \<Rightarrow> server \<Rightarrow> server" where
  "socket_join sid room st =
     (case map_of (sockets st) sid of
        None \<Rightarrow> st
      | Some sk \<Rightarrow>
          st\<lparr>sockets := AList.update sid (sk\<lparr>sock_rooms := List.insert room (sock_rooms sk)\<rparr>)
                           (sockets st)\<rparr>)"

section \<open>server.js: the assistant\<close>

text \<open>
  \<open>getBotUser\<close>: \<open>findUnique\<close> by the name \<open>AI Bot\<close>, and \<open>create\<close> when there is none.
  The id of a new row is the next one after the ids in use. A failure of Prisma or of
  \<open>bcrypt.hash\<close> is caught, logged, and gives \<open>null\<close>.
\<close>

definition next_user_id :: "user_row list \<Rightarrow> nat" where
  "next_user_id us = Suc (fold max (map user_id us) 0)"

definition getBotUser :: "outcomes \<Rightarrow> server \<Rightarrow> user_row option \<times> server" where
  "getBotUser env st =
     (let st1 = log_effects [UserFindUnique ''AI Bot''] st
      in if \<not> user_findUnique env then (None, log_effects [ConsoleError] st1)
         else (case find_js (\<lambda>u. user_username u = ''AI Bot'') (users st1) of
                 Some botUser \<Rightarrow> (Some botUser, st1)
               | None \<Rightarrow>
                   (case user_create env of
                      None \<Rightarrow> (None, log_effects [ConsoleError] st1)
                    | Some hashedPassword \<Rightarrow>
                        (let botUser = \<lparr>user_id = next_user_id (users st1),
                                        user_username = ''AI Bot'',
                                        user_password_hash = hashedPassword\<rparr>
                         in (Some botUser,
                             log_effects [UserCreate botUser]
                               (st1\<lparr>users := users st1 @ [botUser]\<rparr>))))))"

text \<open>
  \<open>getAIResponse\<close>: without a key (unset or empty) the fixed text is returned and no
  request is made. The content of the answer is \<open>data.choices?.[0]?.message?.content\<close>,
  replaced by a fixed text when it is missing or empty.
\<close>

definition getAIResponse :: "outcomes \<Rightarrow> string \<Rightarrow> server \<Rightarrow> string \<times> server" where
  "getAIResponse env message st =
     (let st1 = log_effects [GetAIResponse message] st
      in if OPENAI_API_KEY env = None \<or> OPENAI_API_KEY env = Some []
         then (''AI service is not configured.'', st1)
         else (let st2 = log_effects [Fetch message] st1
               in (case fetch_result env of
                     FetchThrows \<Rightarrow> (''AI bot failed to respond.'', st2)
                   | ResponseNotOk \<Rightarrow> (''AI service error. Please check your API key.'', st2)
                   | ResponseOk None \<Rightarrow> (''Sorry, I couldn't understand that.'', st2)
                   | ResponseOk (Some c) \<Rightarrow>
                       (if c = [] then (''Sorry, I couldn't understand that.'', st2)
                        else (c, st2)))))"

section \<open>server.js: the handlers of a connection\<close>

text \<open>
  \<open>io.on('connection')\<close> for a socket with a new id whose handshake was accepted with
  the decoded user \<open>(id, username)\<close>. socket.io puts every socket into the room named by
  its own id.
\<close>

definition connection :: "string \<Rightarrow> nat \<times> string \<Rightarrow> server \<Rightarrow> server" where
  "connection sid user st =
     (let st1 = st\<lparr>sockets := sockets st @
                   [(sid, \<lparr>sock_user_id = fst user, sock_username = snd user, sock_rooms = [sid]\<rparr>)]\<rparr>;
          st2 = st1\<lparr>userSockets := AList.update (snd user) sid (userSockets st1)\<rparr>
      in io_emit (UpdateUserList (map fst (userSockets st2))) st2)"

text \<open>
  \<open>socket.on('joinRoom')\<close>. The history is the messages of the room in ascending order of
  creation, each with the name of its user; a message whose user is missing makes
  \<open>msg.user.username\<close> throw, which is caught like a failure of \<open>findMany\<close>.
\<close>

definition history_entry :: "user_row list \<Rightarrow> message_row \<Rightarrow> chat_data option" where
  "history_entry us msg =
     (case find_js (\<lambda>u. user_id u = msg_userId msg) us of
        None \<Rightarrow> None
      | Some u \<Rightarrow> Some \<lparr>data_content = msg_content msg, data_username = user_username u,
                        data_createdAt = msg_createdAt msg\<rparr>)"

definition joinRoom :: "outcomes \<Rightarrow> string \<Rightarrow> string \<Rightarrow> server \<Rightarrow> server" where
  "joinRoom env sid room st =
     (case map_of (sockets st) sid of
        None \<Rightarrow> st
      | Some sk \<Rightarrow>
          (let st1 = log_effects [MessageFindMany room] (socket_join sid room st)
           in if \<not> message_findMany env then log_effects [ConsoleError] st1
              else (let found = sort_key msg_createdAt
                                  (filter (\<lambda>m. msg_room m = room) (messages st1));
                        entries = those (map (history_entry (users st1)) found)
                    in (case entries of
                          None \<Rightarrow> log_effects [ConsoleError] st1
                        | Some history \<Rightarrow> socket_emit sid (LoadHistory history) st1))))"

text \<open>
  The object sent with \<open>chatMessage\<close> for a stored message: its content, the name
  of the sender and its time of creation.
\<close>

definition payload :: "string \<Rightarrow> message_row \<Rightarrow> chat_data" where
  "payload name msg =
     \<lparr>data_content = msg_content msg, data_username = name, data_createdAt = msg_createdAt msg\<rparr>"

text \<open>
  \<open>socket.on('chatMessage')\<close>, lines 126 to 140: the delivery of the message. \<open>None\<close> is
  an exception, which the handler catches.
\<close>

definition deliver :: "string \<Rightarrow> sock \<Rightarrow> string \<Rightarrow> chat_data \<Rightarrow> server \<Rightarrow> server option" where
  "deliver sid sk room messageData st =
     (if startsWith room ''dm:''
      then (case split room CHR '':'' of
              _ # part # _ \<Rightarrow>
                (let usernames = split part CHR ''-'';
                     otherUser = find_js (\<lambda>u. u \<noteq> sock_username sk) usernames;
                     recipientSocketId =
                       (case otherUser of None \<Rightarrow> None | Some u \<Rightarrow> map_of (userSockets st) u);
                     st1 = (case recipientSocketId of
                              None \<Rightarrow> st
                            | Some r \<Rightarrow> if r \<noteq> [] then io_to_emit r (ChatMessage messageData) st
                                        else st)
                 in Some (socket_emit sid (ChatMessage messageData) st1))
            | _ \<Rightarrow> None)
      else Some (io_to_emit room (ChatMessage messageData) st))"

text \<open>\<open>socket.on('chatMessage')\<close>, lines 143 to 161: the reply of the assistant.\<close>

definition assistant :: "outcomes \<Rightarrow> string \<Rightarrow> string \<Rightarrow> server \<Rightarrow> server" where
  "assistant env room content st =
     (if startsWith (toLowerCase content) ''@bot'' \<and> \<not> startsWith room ''dm:''
      then (let userPrompt = trim (replaceBot content)
            in if userPrompt \<noteq> []
               then (let (aiReply, st1) = getAIResponse env userPrompt st;
                         (found, st2) = getBotUser env st1
                     in (case found of
                           None \<Rightarrow> st2
                         | Some botUser \<Rightarrow>
                             (case bot_message_create env of
                                None \<Rightarrow> log_effects [ConsoleError] st2
                              | Some t \<Rightarrow>
                                  (let botMsg = \<lparr>msg_content = aiReply, msg_room = room,
                                                 msg_userId = user_id botUser, msg_createdAt = t\<rparr>;
                                       st3 = log_effects [MessageCreate botMsg]
                                               (st2\<lparr>messages := messages st2 @ [botMsg]\<rparr>)
                                   in io_to_emit room
                                        (ChatMessage (payload (user_username botUser) botMsg))
                                        st3))))
               else st)
      else st)"

text \<open>\<open>socket.on('chatMessage')\<close> with the payload \<open>{ room, content }\<close>.\<close>

definition chatMessage :: "outcomes \<Rightarrow> string \<Rightarrow> string \<times> string \<Rightarrow> server \<Rightarrow> server" where
  "chatMessage env sid data st =
     (let room = fst data; content = snd data
      in (case map_of (sockets st) sid of
            None \<Rightarrow> st
          | Some sk \<Rightarrow>
              (case message_create env of
                 None \<Rightarrow> log_effects [ConsoleError] st
               | Some t \<Rightarrow>
                   (let msg = \<lparr>msg_content = content, msg_room = room,
                               msg_userId = sock_user_id sk, msg_createdAt = t\<rparr>;
                        st1 = log_effects [MessageCreate msg]
                                (st\<lparr>messages := messages st @ [msg]\<rparr>);
                        messageData = payload (sock_username sk) msg
                    in (case deliver sid sk room messageData st1 of
                          None \<Rightarrow> log_effects [ConsoleError] st1
                        | Some st2 \<Rightarrow> assistant env room content st2)))))"

text \<open>\<open>socket.on('typing')\<close> and \<open>socket.on('stopTyping')\<close> with the payload \<open>{ room }\<close>.\<close>

definition typing :: "string \<Rightarrow> string \<Rightarrow> server \<Rightarrow> server" where
  "typing sid room st =
     (case map_of (sockets st) sid of
        None \<Rightarrow> st
      | Some sk \<Rightarrow> socket_to_emit sid room (Typing (sock_username sk)) st)"

definition stopTyping :: "string \<Rightarrow> string \<Rightarrow> server \<Rightarrow> server" where
  "stopTyping sid room st =
     (case map_of (sockets st) sid of
        None \<Rightarrow> st
      | Some sk \<Rightarrow> socket_to_emit sid room (StopTyping (sock_username sk)) st)"

text \<open>
  \<open>socket.on('disconnect')\<close>: socket.io has taken the socket out of its rooms and out of
  the connected sockets when the handler runs.
\<close>

definition disconnect :: "string \<Rightarrow> server \<Rightarrow> server" where
  "disconnect sid st =
     (case map_of (sockets st) sid of
        None \<Rightarrow> st
      | Some sk \<Rightarrow>
          (let st1 = st\<lparr>sockets := AList.delete sid (sockets st)\<rparr>;
               st2 = st1\<lparr>userSockets := AList.delete (sock_username sk) (userSockets st1)\<rparr>
           in io_emit (UpdateUserList (map fst (userSockets st2))) st2))"

section \<open>Runs of the server\<close>

text \<open>
  The requests a server receives. Each handler runs to its end before the next request
  is taken. socket.io gives every new socket an id that is not empty and not in use, so a
  connection with another id is not a request the server can receive and leaves the state
  as it is.
\<close>

datatype request =
  Connection string "nat \<times> string"
| JoinRoom outcomes string string
| ChatMessageReq outcomes string "string \<times> string"
| TypingReq string string
| StopTypingReq string string
| Disconnect string

fun step :: "request \<Rightarrow> server \<Rightarrow> server" where
  "step (Connection sid user) st =
     (if sid \<in> set (map fst (sockets st)) \<or> sid = [] then st else connection sid user st)"
| "step (JoinRoom env sid room) st = joinRoom env sid room st"
| "step (ChatMessageReq env sid data) st = chatMessage env sid data st"
| "step (TypingReq sid room) st = typing sid room st"
| "step (StopTypingReq sid room) st = stopTyping sid room st"
| "step (Disconnect sid) st = disconnect sid st"

definition run :: "request list \<Rightarrow> server \<Rightarrow> server" where
  "run reqs st = fold step reqs st"

definition init :: server where
  "init = \<lparr>userSockets = [], sockets = [], users = [], messages = [], trace = []\<rparr>"

text \<open>The effects of running a handler \<open>h\<close> in the state \<open>st\<close>.\<close>

definition effects_of :: "(server \<Rightarrow> server) \<Rightarrow> server \<Rightarrow> effect list" where
  "effects_of h st = drop (length (trace st)) (trace (h st))"

section \<open>Well-formed states\<close>

text \<open>
  What socket.io and the handlers keep true of a state: the ids of the connected sockets
  are distinct and not empty, every socket is in the room of its own id, and an entry of
  \<open>userSockets\<close> names a connected socket of that user.
\<close>

definition well_formed :: "server \<Rightarrow> bool" where
  "well_formed st =
     (distinct (map fst (sockets st))
      \<and> list_all (\<lambda>(s, sk). s \<noteq> [] \<and> s \<in> set (sock_rooms sk)) (sockets st)
      \<and> list_all (\<lambda>(u, s). case map_of (sockets st) s of
                               None \<Rightarrow> False
                             | Some sk \<Rightarrow> sock_username sk = u) (userSockets st))"

text \<open>No socket has joined a room that is named by the id of another connected socket.\<close>

definition private_ids :: "server \<Rightarrow> bool" where
  "private_ids st =
     list_all (\<lambda>(s, sk). list_all (\<lambda>r. r = s \<or> r \<notin> set (map fst (sockets st))) (sock_rooms sk))
       (sockets st)"

text \<open>The rooms that the requests of a run ask the socket with the given id to join.\<close>

fun rooms_joined :: "string \<Rightarrow> request list \<Rightarrow> string list" where
  "rooms_joined sid [] = []"
| "rooms_joined sid (JoinRoom env s room # reqs) =
     (if s = sid then room # rooms_joined sid reqs else rooms_joined sid reqs)"
| "rooms_joined sid (_ # reqs) = rooms_joined sid reqs"

text \<open>The table of users holds at most one user with the name of the assistant.\<close>

definition bot_unique :: "server \<Rightarrow> bool" where
  "bot_unique st = (length (filter (\<lambda>u. user_username u = ''AI Bot'') (users st)) \<le> 1)"

section \<open>Example states\<close>

text \<open>The generation service is not configured, everything else succeeds.\<close>

definition unconfigured :: outcomes where
  "unconfigured =
     \<lparr>OPENAI_API_KEY = None, message_create = Some 5, message_findMany = True,
      fetch_result = FetchThrows, user_findUnique = True, user_create = Some ''hash'',
      bot_message_create = Some 6\<rparr>"

text \<open>The storage rejects the message of the user.\<close>

definition storage_down :: outcomes where
  "storage_down = unconfigured\<lparr>message_create := None\<rparr>"

text \<open>Alice and Bob have accounts; nobody is connected.\<close>

definition two_users :: server where
  "two_users =
     init\<lparr>users := [\<lparr>user_id = 1, user_username = ''alice'', user_password_hash = ''a''\<rparr>,
                    \<lparr>user_id = 2, user_username = ''bob'', user_password_hash = ''b''\<rparr>]\<rparr>"

text \<open>Alice and Bob are connected and have joined \<open>general\<close>.\<close>

definition alice_bob_general :: server where
  "alice_bob_general =
     run [Connection ''s1'' (1, ''alice''), Connection ''s2'' (2, ''bob''),
          JoinRoom unconfigured ''s1'' ''general'', JoinRoom unconfigured ''s2'' ''general'']
       two_users"

text \<open>Alice and Bob are connected, and only Bob has joined \<open>general\<close>.\<close>

definition alice_outside :: server where
  "alice_outside =
     run [Connection ''s1'' (1, ''alice''), Connection ''s2'' (2, ''bob''),
          JoinRoom unconfigured ''s2'' ''general''] two_users"

text \<open>Alice is connected twice, the second socket being the registered one.\<close>

definition alice_twice :: server where
  "alice_twice =
     run [Connection ''s1'' (1, ''alice''), Connection ''s2'' (1, ''alice'')] two_users"

text \<open>Alice, Bob and Carol are connected, and Carol has joined \<open>general\<close>.\<close>

definition three_online :: server where
  "three_online =
     run [Connection ''s1'' (1, ''alice''), Connection ''s2'' (2, ''bob''),
          Connection ''s3'' (3, ''carol''), JoinRoom unconfigured ''s3'' ''general'']
       (init\<lparr>users := [\<lparr>user_id = 1, user_username = ''alice'', user_password_hash = ''a''\<rparr>,
                       \<lparr>user_id = 2, user_username = ''bob'', user_password_hash = ''b''\<rparr>,
                       \<lparr>user_id = 3, user_username = ''carol'', user_password_hash = ''c''\<rparr>]\<rparr>)"

text \<open>Carol has joined the room that is named by the id of Bob's socket.\<close>

definition carol_listening :: server where
  "carol_listening = run [JoinRoom unconfigured ''s3'' ''s2''] three_online"

text \<open>The users \<open>a-b\<close>, \<open>a\<close> and \<open>c\<close> are connected.\<close>

definition hyphenated :: server where
  "hyphenated =
     run [Connection ''s1'' (1, ''a-b''), Connection ''s2'' (2, ''a''), Connection ''s3'' (3, ''c'')]
       (init\<lparr>users := [\<lparr>user_id = 1, user_username = ''a-b'', user_password_hash = ''a''\<rparr>,
                       \<lparr>user_id = 2, user_username = ''a'', user_password_hash = ''b''\<rparr>,
                       \<lparr>user_id = 3, user_username = ''c'', user_password_hash = ''c''\<rparr>]\<rparr>)"

text \<open>Alice is typing in \<open>general\<close>.\<close>

definition alice_typing :: server where
  "alice_typing = run [TypingReq ''s1'' ''general''] alice_bob_general"

section \<open>Properties of the room names\<close>

lemma split_no_sep: "c \<notin> set a \<Longrightarrow> split a c = [a]"
  by (induction a) auto

lemma split_append_sep: "c \<notin> set a \<Longrightarrow> split (a @ c # rest) c = a # split rest c"
  by (induction a) auto

lemma sort_two: "sort [a, b] = (if a \<le> b then [a, b] else [b, a])" for a b :: "'a::linorder"
  by auto

lemma sort_two_commute: "sort [a, b] = sort [b, a]" for a b :: "'a::linorder"
  by (auto simp: sort_two)

lemma sort_two_set: "set (sort [a, b]) = {a, b}" for a b :: "'a::linorder"
  by (auto simp: sort_two)

lemma getDMRoomName_parts:
  "\<exists>x y. sort [a, b] = [x, y] \<and> getDMRoomName a b = x @ CHR ''-'' # y"
  by (auto simp: getDMRoomName_def)

text \<open>A string with one hyphen splits at it in one way only.\<close>

lemma hyphen_unique:
  assumes "x @ CHR ''-'' # y = x' @ CHR ''-'' # y'"
    and "CHR ''-'' \<notin> set x" and "CHR ''-'' \<notin> set y"
  shows "x = x' \<and> y = y'"
proof -
  have "count_list (x @ CHR ''-'' # y) CHR ''-'' = count_list (x' @ CHR ''-'' # y') CHR ''-''"
    by (rule arg_cong[OF assms(1)])
  moreover have "count_list x CHR ''-'' = 0" "count_list y CHR ''-'' = 0"
    using assms(2,3) by (simp_all add: count_list_0_iff)
  ultimately have "count_list x' CHR ''-'' = 0 \<and> count_list y' CHR ''-'' = 0"
    by simp
  then have n: "CHR ''-'' \<notin> set x'" "CHR ''-'' \<notin> set y'"
    by (simp_all add: count_list_0_iff)
  have "split (x @ CHR ''-'' # y) CHR ''-'' = [x, y]"
    using assms(2,3) by (simp add: split_append_sep split_no_sep)
  moreover have "split (x' @ CHR ''-'' # y') CHR ''-'' = [x', y']"
    using n by (simp add: split_append_sep split_no_sep)
  ultimately have "[x, y] = [x', y']"
    by (simp only: assms(1))
  then show ?thesis by simp
qed

lemma getDMRoomName_inj:
  assumes "getDMRoomName a b = getDMRoomName c d"
    and "CHR ''-'' \<notin> set a" and "CHR ''-'' \<notin> set b"
  shows "{a, b} = {c, d}"
proof -
  obtain x y where xy: "sort [a, b] = [x, y]" "getDMRoomName a b = x @ CHR ''-'' # y"
    using getDMRoomName_parts by blast
  obtain x' y' where xy': "sort [c, d] = [x', y']" "getDMRoomName c d = x' @ CHR ''-'' # y'"
    using getDMRoomName_parts by blast
  have "set [x, y] = {a, b}" using xy(1) sort_two_set[of a b] by simp
  then have "CHR ''-'' \<notin> set x" "CHR ''-'' \<notin> set y" using assms(2,3) by auto
  then have "x = x' \<and> y = y'" using hyphen_unique assms(1) xy(2) xy'(2) by metis
  then have "sort [a, b] = sort [c, d]" using xy(1) xy'(1) by simp
  then have "set (sort [a, b]) = set (sort [c, d])" by simp
  then show ?thesis by (simp only: sort_two_set)
qed

text \<open>
  C1, as the code has it. The room name of a direct message does not depend on the order
  of the two names, starts with the reserved prefix \<open>dm:\<close>, and so differs from every
  room name without that prefix, the four named channels among them. Two pairs of names
  get different room names when the names of one pair contain no hyphen: a pair of names
  without hyphens shares its room name with no other unordered pair.
\<close>

theorem dmRoomName_canonical:
  "dmRoomName a b = dmRoomName b a
   \<and> startsWith (dmRoomName a b) ''dm:''
   \<and> (\<forall>r. \<not> startsWith r ''dm:'' \<longrightarrow> dmRoomName a b \<noteq> r)
   \<and> dmRoomName a b \<notin> set channels
   \<and> (CHR ''-'' \<notin> set a \<and> CHR ''-'' \<notin> set b \<and> dmRoomName a b = dmRoomName c d
        \<longrightarrow> {a, b} = {c, d})"
proof -
  have 1: "dmRoomName a b = dmRoomName b a"
    by (simp only: dmRoomName_def getDMRoomName_def sort_two_commute[of a b])
  have 2: "startsWith (dmRoomName a b) ''dm:''"
    by (simp add: startsWith_def dmRoomName_def)
  have 3: "\<forall>r. \<not> startsWith r ''dm:'' \<longrightarrow> dmRoomName a b \<noteq> r"
    using 2 by blast
  have 4: "dmRoomName a b \<notin> set channels"
    by (simp add: channels_def dmRoomName_def)
  have 5: "CHR ''-'' \<notin> set a \<and> CHR ''-'' \<notin> set b \<and> dmRoomName a b = dmRoomName c d
        \<longrightarrow> {a, b} = {c, d}"
    using getDMRoomName_inj[of a b c d] by (simp add: dmRoomName_def)
  from 1 2 3 4 5 show ?thesis by blast
qed

theorem dmRoomName_canonical_witness:
  "dmRoomName ''alice'' ''bob'' = dmRoomName ''bob'' ''alice''
   \<and> startsWith (dmRoomName ''alice'' ''bob'') ''dm:''
   \<and> \<not> startsWith ''general'' ''dm:'' \<and> dmRoomName ''alice'' ''bob'' \<noteq> ''general''
   \<and> dmRoomName ''alice'' ''bob'' \<notin> set channels
   \<and> CHR ''-'' \<notin> set ''alice'' \<and> CHR ''-'' \<notin> set ''bob''
   \<and> {''alice'', ''bob''} = {''bob'', ''alice''}"
proof -
  have g: "\<not> startsWith ''general'' ''dm:''" by (simp add: startsWith_def)
  have h: "CHR ''-'' \<notin> set ''alice''" "CHR ''-'' \<notin> set ''bob''" by simp_all
  note t = dmRoomName_canonical[of "''alice''" "''bob''" "''bob''" "''alice''"]
  from t have a: "dmRoomName ''alice'' ''bob'' = dmRoomName ''bob'' ''alice''" by (rule conjunct1)
  from t have b: "startsWith (dmRoomName ''alice'' ''bob'') ''dm:''" by (elim conjE)
  from t have "\<forall>r. \<not> startsWith r ''dm:'' \<longrightarrow> dmRoomName ''alice'' ''bob'' \<noteq> r" by (elim conjE)
  with g have c: "dmRoomName ''alice'' ''bob'' \<noteq> ''general''" by (elim allE impE)
  from t have d: "dmRoomName ''alice'' ''bob'' \<notin> set channels" by (elim conjE)
  from t a h have e: "{''alice'', ''bob''} = {''bob'', ''alice''}" by (elim conjE impE) (intro conjI)
  from a b c d e g h show ?thesis by (intro conjI)
qed

text \<open>
  C1 as stated fails: the names \<open>a-b\<close> and \<open>c\<close> get the room name of the names \<open>a\<close> and
  \<open>b-c\<close>, and the two pairs are different.
\<close>

theorem dmRoomName_collision:
  "dmRoomName ''a-b'' ''c'' = dmRoomName ''a'' ''b-c'' \<and> {''a-b'', ''c''} \<noteq> {''a'', ''b-c''}"
proof
  show "dmRoomName ''a-b'' ''c'' = dmRoomName ''a'' ''b-c''" by code_simp
  show "{''a-b'', ''c''} \<noteq> {''a'', ''b-c''}" by (simp add: doubleton_eq_iff)
qed

section \<open>Effects of the handlers\<close>

lemma log_effects_simps [simp]:
  "trace (log_effects es st) = trace st @ es"
  "sockets (log_effects es st) = sockets st"
  "userSockets (log_effects es st) = userSockets st"
  "users (log_effects es st) = users st"
  "messages (log_effects es st) = messages st"
  by (simp_all add: log_effects_def)

lemma emit_to_simps [simp]:
  "trace (emit_to sids ev st) = trace st @ map (\<lambda>s. Emit s ev) sids"
  "sockets (emit_to sids ev st) = sockets st"
  "userSockets (emit_to sids ev st) = userSockets st"
  "users (emit_to sids ev st) = users st"
  "messages (emit_to sids ev st) = messages st"
  by (simp_all add: emit_to_def)

lemma effects_ofI: "trace (h st) = trace st @ es \<Longrightarrow> effects_of h st = es"
  by (simp add: effects_of_def)

lemma split_nonempty: "split s c \<noteq> []"
  by (induction s) (auto split: list.splits)

lemma split_dm:
  assumes "startsWith room ''dm:''"
  shows "\<exists>p ps. split room CHR '':'' = ''dm'' # p # ps"
proof -
  obtain rest where r: "room = ''dm:'' @ rest"
    using assms unfolding startsWith_def by (metis append_take_drop_id)
  obtain p ps where "split rest CHR '':'' = p # ps"
    using split_nonempty[of rest "CHR '':''"] by (cases "split rest CHR '':''") auto
  then show ?thesis using r by simp
qed

section \<open>A failure of the storage\<close>

text \<open>
  C3, as the code has it. When the storage rejects the message of the user, the send is
  aborted: no event is emitted to any socket, the sender included, nothing is stored, the
  tables, the sockets and \<open>userSockets\<close> stay as they were, and the only effect of a
  connected sender's request is the entry on the console of the server.
\<close>

theorem chatMessage_persist_failure:
  "message_create env = None \<Longrightarrow>
     (\<forall>s e. Emit s e \<notin> set (effects_of (chatMessage env sid (room, content)) st))
     \<and> (\<forall>m. MessageCreate m \<notin> set (effects_of (chatMessage env sid (room, content)) st))
     \<and> messages (chatMessage env sid (room, content) st) = messages st
     \<and> users (chatMessage env sid (room, content) st) = users st
     \<and> sockets (chatMessage env sid (room, content) st) = sockets st
     \<and> userSockets (chatMessage env sid (room, content) st) = userSockets st
     \<and> (map_of (sockets st) sid \<noteq> None \<longrightarrow>
          effects_of (chatMessage env sid (room, content)) st = [ConsoleError])"
  by (auto simp: chatMessage_def effects_of_def split: option.splits)

theorem chatMessage_persist_failure_witness:
  "message_create storage_down = None
   \<and> map_of (sockets alice_bob_general) ''s1'' \<noteq> None
   \<and> (\<forall>s e. Emit s e \<notin> set (effects_of (chatMessage storage_down ''s1'' (''general'', ''hello'')) alice_bob_general))
   \<and> messages (chatMessage storage_down ''s1'' (''general'', ''hello'') alice_bob_general) = messages alice_bob_general
   \<and> effects_of (chatMessage storage_down ''s1'' (''general'', ''hello'')) alice_bob_general = [ConsoleError]"
proof -
  have h: "message_create storage_down = None"
    by (simp add: storage_down_def)
  have c: "map_of (sockets alice_bob_general) ''s1'' \<noteq> None"
    by code_simp
  show ?thesis
    using chatMessage_persist_failure[OF h, of "''s1''" "''general''" "''hello''" alice_bob_general] h c
    by simp
qed

text \<open>
  C3 as stated fails: Alice's message to \<open>general\<close> is rejected by the storage and
  nothing is emitted to her socket, so no signal of the failure reaches the sender.
\<close>

theorem chatMessage_no_failure_signal:
  "message_create storage_down = None
   \<and> effects_of (chatMessage storage_down ''s1'' (''general'', ''hello'')) alice_bob_general = [ConsoleError]
   \<and> \<not> (\<exists>e. Emit ''s1'' e \<in> set (effects_of (chatMessage storage_down ''s1'' (''general'', ''hello'')) alice_bob_general))"
proof -
  have h: "message_create storage_down = None"
    by (simp add: storage_down_def)
  have e: "effects_of (chatMessage storage_down ''s1'' (''general'', ''hello'')) alice_bob_general = [ConsoleError]"
    by code_simp
  show ?thesis using h e by simp
qed

section \<open>Disconnecting\<close>

text \<open>
  C8, as the code has it. The handler of \<open>disconnect\<close> deletes the entry of the socket's
  user name from \<open>userSockets\<close> whatever socket the entry names, and leaves the entries of
  the other names as they are.
\<close>

theorem disconnect_unregisters:
  "map_of (sockets st) sid = Some sk \<Longrightarrow>
     map_of (userSockets (disconnect sid st)) (sock_username sk) = None
     \<and> (\<forall>u. u \<noteq> sock_username sk \<longrightarrow>
            map_of (userSockets (disconnect sid st)) u = map_of (userSockets st) u)"
  by (simp add: disconnect_def io_emit_def Let_def AList.delete_conv')

theorem disconnect_unregisters_witness:
  "map_of (sockets alice_bob_general) ''s1'' =
     Some \<lparr>sock_user_id = 1, sock_username = ''alice'', sock_rooms = [''general'', ''s1'']\<rparr>
   \<and> map_of (userSockets (disconnect ''s1'' alice_bob_general)) ''alice'' = None
   \<and> ''bob'' \<noteq> ''alice''
   \<and> map_of (userSockets (disconnect ''s1'' alice_bob_general)) ''bob'' = map_of (userSockets alice_bob_general) ''bob''"
proof -
  have h: "map_of (sockets alice_bob_general) ''s1'' =
     Some \<lparr>sock_user_id = 1, sock_username = ''alice'', sock_rooms = [''general'', ''s1'']\<rparr>"
    by code_simp
  show ?thesis
    using disconnect_unregisters[OF h] h by simp
qed

text \<open>
  C8 as stated fails: Alice is registered with her second socket \<open>s2\<close>; when her first
  socket \<open>s1\<close> disconnects, \<open>s2\<close> stays connected and her entry is gone.
\<close>

theorem stale_disconnect_unregisters:
  "map_of (userSockets alice_twice) ''alice'' = Some ''s2''
   \<and> map_of (sockets (disconnect ''s1'' alice_twice)) ''s2'' \<noteq> None
   \<and> map_of (userSockets (disconnect ''s1'' alice_twice)) ''alice'' = None"
  by code_simp

text \<open>
  C7, as the code has it. The handler of \<open>disconnect\<close> emits the list of the user names
  left in \<open>userSockets\<close> to every socket that is still connected and nothing else: the list
  does not contain the name of the socket that went away, and no \<open>stopTyping\<close> is
  emitted. The other members of a room get \<open>stopTyping\<close> when the client sends it, which
  the server passes on to the sockets of the room except the sender.
\<close>

theorem disconnect_effects:
  "map_of (sockets st) sid = Some sk \<Longrightarrow>
     effects_of (disconnect sid) st =
       map (\<lambda>s. Emit s (UpdateUserList (map fst (AList.delete (sock_username sk) (userSockets st)))))
         (map fst (AList.delete sid (sockets st)))
     \<and> sock_username sk \<notin> set (map fst (AList.delete (sock_username sk) (userSockets st)))
     \<and> (\<forall>s u. Emit s (StopTyping u) \<notin> set (effects_of (disconnect sid) st))
     \<and> effects_of (stopTyping sid room) st =
         map (\<lambda>s. Emit s (StopTyping (sock_username sk))) (filter (\<lambda>s. s \<noteq> sid) (in_room room st))"
proof -
  assume h: "map_of (sockets st) sid = Some sk"
  have 1: "effects_of (disconnect sid) st =
       map (\<lambda>s. Emit s (UpdateUserList (map fst (AList.delete (sock_username sk) (userSockets st)))))
         (map fst (AList.delete sid (sockets st)))"
    using h by (simp add: disconnect_def io_emit_def Let_def effects_of_def)
  have 2: "sock_username sk \<notin> set (map fst (AList.delete (sock_username sk) (userSockets st)))"
    using AList.delete_notin_dom[of "sock_username sk" "userSockets st"] by simp
  have 3: "\<forall>s u. Emit s (StopTyping u) \<notin> set (effects_of (disconnect sid) st)"
    unfolding 1 by auto
  have 4: "effects_of (stopTyping sid room) st =
         map (\<lambda>s. Emit s (StopTyping (sock_username sk))) (filter (\<lambda>s. s \<noteq> sid) (in_room room st))"
    using h by (simp add: stopTyping_def socket_to_emit_def effects_of_def)
  from 1 2 3 4 show ?thesis by blast
qed

theorem disconnect_effects_witness:
  "map_of (sockets alice_typing) ''s1'' =
     Some \<lparr>sock_user_id = 1, sock_username = ''alice'', sock_rooms = [''general'', ''s1'']\<rparr>
   \<and> effects_of (disconnect ''s1'') alice_typing = [Emit ''s2'' (UpdateUserList [''bob''])]
   \<and> effects_of (stopTyping ''s1'' ''general'') alice_typing = [Emit ''s2'' (StopTyping ''alice'')]"
proof -
  have h: "map_of (sockets alice_typing) ''s1'' =
     Some \<lparr>sock_user_id = 1, sock_username = ''alice'', sock_rooms = [''general'', ''s1'']\<rparr>"
    by code_simp
  have a: "map (\<lambda>s. Emit s (UpdateUserList (map fst (AList.delete ''alice'' (userSockets alice_typing)))))
         (map fst (AList.delete ''s1'' (sockets alice_typing))) = [Emit ''s2'' (UpdateUserList [''bob''])]"
    by code_simp
  have b: "map (\<lambda>s. Emit s (StopTyping ''alice'')) (filter (\<lambda>s. s \<noteq> ''s1'') (in_room ''general'' alice_typing))
       = [Emit ''s2'' (StopTyping ''alice'')]"
    by code_simp
  show ?thesis
    using disconnect_effects[OF h, of "''general''"] h a b by simp
qed

text \<open>
  C7 as stated fails: Bob is in \<open>general\<close> and has been told that Alice is typing; when
  Alice disconnects Bob gets the new list of users and no \<open>stopTyping\<close>.
\<close>

theorem disconnect_while_typing:
  "Emit ''s2'' (Typing ''alice'') \<in> set (trace alice_typing)
   \<and> ''s2'' \<in> set (in_room ''general'' alice_typing)
   \<and> effects_of (disconnect ''s1'') alice_typing = [Emit ''s2'' (UpdateUserList [''bob''])]
   \<and> Emit ''s2'' (StopTyping ''alice'') \<notin> set (effects_of (disconnect ''s1'') alice_typing)"
proof -
  have 1: "Emit ''s2'' (Typing ''alice'') \<in> set (trace alice_typing)" by code_simp
  have 2: "''s2'' \<in> set (in_room ''general'' alice_typing)" by code_simp
  have 3: "effects_of (disconnect ''s1'') alice_typing = [Emit ''s2'' (UpdateUserList [''bob''])]"
    by code_simp
  show ?thesis using 1 2 3 by simp
qed

section \<open>The handler of chatMessage\<close>

lemma in_room_simps [simp]:
  "in_room r (log_effects es st) = in_room r st"
  "in_room r (emit_to sids ev st) = in_room r st"
  "in_room r (st\<lparr>messages := ms\<rparr>) = in_room r st"
  "in_room r (st\<lparr>users := us\<rparr>) = in_room r st"
  "in_room r (st\<lparr>trace := tr\<rparr>) = in_room r st"
  by (simp_all add: in_room_def)

lemma log_effects_log_effects [simp]:
  "log_effects es (log_effects es' st) = log_effects (es' @ es) st"
  by (simp add: log_effects_def)

lemma deliver_shape:
  "\<exists>rs. deliver sid sk room md st = Some (emit_to rs (ChatMessage md) st)
        \<and> (if startsWith room ''dm:'' then sid \<in> set rs else rs = in_room room st)"
proof (cases "startsWith room ''dm:''")
  case True
  then obtain p ps where s: "split room CHR '':'' = ''dm'' # p # ps"
    using split_dm by blast
  define rcp where "rcp = (case find_js (\<lambda>u. u \<noteq> sock_username sk) (split p CHR ''-'') of
                         None \<Rightarrow> None | Some u \<Rightarrow> map_of (userSockets st) u)"
  show ?thesis
  proof (cases "\<exists>r. rcp = Some r \<and> r \<noteq> []")
    case True
    then obtain r where r: "rcp = Some r" "r \<noteq> []" by blast
    have "deliver sid sk room md st = Some (emit_to (in_room r st @ [sid]) (ChatMessage md) st)"
      using \<open>startsWith room ''dm:''\<close> s r unfolding rcp_def
      by (simp add: deliver_def io_to_emit_def socket_emit_def emit_to_def log_effects_def in_room_def)
    then show ?thesis using \<open>startsWith room ''dm:''\<close> by auto
  next
    case False
    then have "deliver sid sk room md st = Some (emit_to [sid] (ChatMessage md) st)"
      using \<open>startsWith room ''dm:''\<close> s unfolding rcp_def
      by (auto simp add: deliver_def socket_emit_def split: option.splits)
    then show ?thesis using \<open>startsWith room ''dm:''\<close> by auto
  qed
next
  case False
  then show ?thesis by (auto simp: deliver_def io_to_emit_def)
qed

lemma getAIResponse_shape:
  "\<exists>r es. getAIResponse env p st = (r, log_effects (GetAIResponse p # es) st)
          \<and> (\<forall>s e. Emit s e \<notin> set es)"
  by (auto simp: getAIResponse_def Let_def split: fetch_outcome.splits option.splits)

lemma getAIResponse_unconfigured:
  "OPENAI_API_KEY env = None \<or> OPENAI_API_KEY env = Some [] \<Longrightarrow>
     getAIResponse env p st = (''AI service is not configured.'', log_effects [GetAIResponse p] st)"
  by (auto simp add: getAIResponse_def)

lemma find_js_Some: "find_js P xs = Some x \<Longrightarrow> P x \<and> x \<in> set xs"
  by (induction xs) (auto split: if_splits)

lemma find_js_None: "find_js P xs = None \<longleftrightarrow> (\<forall>x\<in>set xs. \<not> P x)"
  by (induction xs) auto

lemma getBotUser_shape:
  "\<exists>r es us. getBotUser env st = (r, log_effects (UserFindUnique ''AI Bot'' # es) (st\<lparr>users := users st @ us\<rparr>))
          \<and> (\<forall>s e. Emit s e \<notin> set es) \<and> (\<forall>m. MessageCreate m \<notin> set es)"
proof (cases "user_findUnique env")
  case False
  then have "getBotUser env st = (None, log_effects (UserFindUnique ''AI Bot'' # [ConsoleError]) (st\<lparr>users := users st @ []\<rparr>))"
    by (simp add: getBotUser_def Let_def)
  then show ?thesis by (intro exI[of _ None] exI[of _ "[ConsoleError]"] exI[of _ "[]"]) simp
next
  case True
  show ?thesis
  proof (cases "find_js (\<lambda>u. user_username u = ''AI Bot'') (users st)")
    case (Some b)
    then have "getBotUser env st = (Some b, log_effects (UserFindUnique ''AI Bot'' # []) (st\<lparr>users := users st @ []\<rparr>))"
      using True by (simp add: getBotUser_def Let_def)
    then show ?thesis by (intro exI[of _ "Some b"] exI[of _ "[]"]) simp
  next
    case None
    show ?thesis
    proof (cases "user_create env")
      case n: None
      then have "getBotUser env st = (None, log_effects (UserFindUnique ''AI Bot'' # [ConsoleError]) (st\<lparr>users := users st @ []\<rparr>))"
        using True None by (simp add: getBotUser_def Let_def)
      then show ?thesis by (intro exI[of _ None] exI[of _ "[ConsoleError]"] exI[of _ "[]"]) simp
    next
      case (Some h)
      define b where "b = \<lparr>user_id = next_user_id (users st), user_username = ''AI Bot'', user_password_hash = h\<rparr>"
      have "getBotUser env st = (Some b, log_effects (UserFindUnique ''AI Bot'' # [UserCreate b]) (st\<lparr>users := users st @ [b]\<rparr>))"
        using True None Some by (simp add: getBotUser_def b_def log_effects_def Let_def)
      then show ?thesis by (intro exI[of _ "Some b"] exI[of _ "[UserCreate b]"] exI[of _ "[b]"]) simp
    qed
  qed
qed

lemma getBotUser_found:
  assumes "fst (getBotUser env st) = Some b" and that: "users st1 = users st"
  shows "user_username b = ''AI Bot''
     \<and> (\<exists>mid. (mid = [] \<or> mid = [UserCreate b])
            \<and> getBotUser env st1 = (Some b, log_effects (UserFindUnique ''AI Bot'' # mid)
                    (st1\<lparr>users := users st1 @ (if mid = [] then [] else [b])\<rparr>)))"
proof -
  have u: "user_findUnique env"
    using assms(1) by (auto simp: getBotUser_def Let_def split: if_splits)
  show ?thesis
  proof (cases "find_js (\<lambda>u. user_username u = ''AI Bot'') (users st)")
    case (Some x)
    then have "x = b" using assms(1) u by (simp add: getBotUser_def Let_def)
    then have "user_username b = ''AI Bot''" using Some find_js_Some by fastforce
    moreover have "getBotUser env st1 = (Some b, log_effects (UserFindUnique ''AI Bot'' # [])
                    (st1\<lparr>users := users st1 @ []\<rparr>))"
      using Some u that \<open>x = b\<close> by (simp add: getBotUser_def Let_def)
    ultimately show ?thesis by (intro conjI exI[of _ "[]"]) simp_all
  next
    case None
    then obtain h where h: "user_create env = Some h"
      using assms(1) u by (cases "user_create env") (auto simp: getBotUser_def Let_def)
    then have b: "b = \<lparr>user_id = next_user_id (users st), user_username = ''AI Bot'', user_password_hash = h\<rparr>"
      using assms(1) u None by (simp add: getBotUser_def Let_def)
    then have "user_username b = ''AI Bot''" by simp
    moreover have "getBotUser env st1 = (Some b, log_effects (UserFindUnique ''AI Bot'' # [UserCreate b])
                    (st1\<lparr>users := users st1 @ [b]\<rparr>))"
      using None u that h b by (simp add: getBotUser_def Let_def log_effects_def)
    ultimately show ?thesis by (intro conjI exI[of _ "[UserCreate b]"]) simp_all
  qed
qed

lemma assistant_idle:
  "\<not> startsWith (toLowerCase content) ''@bot'' \<or> startsWith room ''dm:''
     \<or> trim (replaceBot content) = [] \<Longrightarrow> assistant env room content st = st"
  by (auto simp: assistant_def)

lemma assistant_shape:
  "\<exists>es us ms. assistant env room content st =
       log_effects es (st\<lparr>users := users st @ us, messages := messages st @ ms\<rparr>)
     \<and> (\<forall>s e. Emit s e \<in> set es \<longrightarrow> s \<in> set (in_room room st))
     \<and> (startsWith (toLowerCase content) ''@bot'' \<and> \<not> startsWith room ''dm:''
          \<and> trim (replaceBot content) \<noteq> [] \<longrightarrow>
            GetAIResponse (trim (replaceBot content)) \<in> set es
            \<and> UserFindUnique ''AI Bot'' \<in> set es)"
proof (cases "startsWith (toLowerCase content) ''@bot'' \<and> \<not> startsWith room ''dm:''
          \<and> trim (replaceBot content) \<noteq> []")
  case False
  then have "assistant env room content st = log_effects [] (st\<lparr>users := users st @ [], messages := messages st @ []\<rparr>)"
    using assistant_idle[of content room env st] by (simp add: log_effects_def)
  then show ?thesis using False by (intro exI[of _ "[]"]) auto
next
  case True
  define p where "p = trim (replaceBot content)"
  obtain r es1 where a: "getAIResponse env p st = (r, log_effects (GetAIResponse p # es1) st)"
      "\<forall>s e. Emit s e \<notin> set es1"
    using getAIResponse_shape by blast
  define st1 where "st1 = log_effects (GetAIResponse p # es1) st"
  obtain f es2 us where g: "getBotUser env st1 = (f, log_effects (UserFindUnique ''AI Bot'' # es2) (st1\<lparr>users := users st1 @ us\<rparr>))"
      "\<forall>s e. Emit s e \<notin> set es2"
    using getBotUser_shape by blast
  define st2 where "st2 = log_effects (UserFindUnique ''AI Bot'' # es2) (st1\<lparr>users := users st1 @ us\<rparr>)"
  have st2: "st2 = log_effects (GetAIResponse p # es1 @ UserFindUnique ''AI Bot'' # es2) (st\<lparr>users := users st @ us, messages := messages st @ []\<rparr>)"
    by (simp add: st2_def st1_def log_effects_def)
  have A: "assistant env room content st =
     (case f of None \<Rightarrow> st2
      | Some botUser \<Rightarrow>
          (case bot_message_create env of
             None \<Rightarrow> log_effects [ConsoleError] st2
           | Some t \<Rightarrow> io_to_emit room (ChatMessage (payload (user_username botUser)
                          \<lparr>msg_content = r, msg_room = room, msg_userId = user_id botUser, msg_createdAt = t\<rparr>))
                        (log_effects [MessageCreate \<lparr>msg_content = r, msg_room = room, msg_userId = user_id botUser, msg_createdAt = t\<rparr>]
                           (st2\<lparr>messages := messages st2 @ [\<lparr>msg_content = r, msg_room = room, msg_userId = user_id botUser, msg_createdAt = t\<rparr>]\<rparr>))))"
    using True a(1) g(1) by (simp add: assistant_def p_def[symmetric] st1_def[symmetric] st2_def[symmetric] Let_def split: option.splits)
  show ?thesis
  proof (cases f)
    case None
    then have "assistant env room content st = st2" using A by simp
    then show ?thesis unfolding st2 using a(2) g(2) p_def
      by (intro exI[of _ "GetAIResponse p # es1 @ UserFindUnique ''AI Bot'' # es2"] exI[of _ us] exI[of _ "[]"]) auto
  next
    case (Some b)
    show ?thesis
    proof (cases "bot_message_create env")
      case None
      then have "assistant env room content st = log_effects [ConsoleError] st2" using A Some by simp
      then show ?thesis unfolding st2 using a(2) g(2) p_def
        by (intro exI[of _ "(GetAIResponse p # es1 @ UserFindUnique ''AI Bot'' # es2) @ [ConsoleError]"] exI[of _ us] exI[of _ "[]"]) auto
    next
      case (Some t)
      define m where "m = \<lparr>msg_content = r, msg_room = room, msg_userId = user_id b, msg_createdAt = t\<rparr>"
      have "assistant env room content st = io_to_emit room (ChatMessage (payload (user_username b) m))
                        (log_effects [MessageCreate m] (st2\<lparr>messages := messages st2 @ [m]\<rparr>))"
        using A Some \<open>f = Some b\<close> by (simp add: m_def)
      also have "\<dots> = log_effects ((GetAIResponse p # es1 @ UserFindUnique ''AI Bot'' # es2) @ MessageCreate m #
             map (\<lambda>s. Emit s (ChatMessage (payload (user_username b) m))) (in_room room st))
             (st\<lparr>users := users st @ us, messages := messages st @ [m]\<rparr>)"
        unfolding st2 by (simp add: io_to_emit_def emit_to_def log_effects_def in_room_def)
      finally show ?thesis using a(2) g(2) p_def
        by (intro exI[of _ "(GetAIResponse p # es1 @ UserFindUnique ''AI Bot'' # es2) @ MessageCreate m #
             map (\<lambda>s. Emit s (ChatMessage (payload (user_username b) m))) (in_room room st)"] exI[of _ us] exI[of _ "[m]"]) auto
    qed
  qed
qed

lemma chatMessage_shape:
  assumes "map_of (sockets st) sid = Some sk" "message_create env = Some t"
  shows "\<exists>rs. chatMessage env sid (room, content) st =
           assistant env room content
             (emit_to rs (ChatMessage (payload (sock_username sk)
                  \<lparr>msg_content = content, msg_room = room, msg_userId = sock_user_id sk, msg_createdAt = t\<rparr>))
               (log_effects [MessageCreate \<lparr>msg_content = content, msg_room = room, msg_userId = sock_user_id sk, msg_createdAt = t\<rparr>]
                  (st\<lparr>messages := messages st @ [\<lparr>msg_content = content, msg_room = room, msg_userId = sock_user_id sk, msg_createdAt = t\<rparr>]\<rparr>)))
        \<and> (if startsWith room ''dm:'' then sid \<in> set rs else rs = in_room room st)"
proof -
  define msg where "msg = \<lparr>msg_content = content, msg_room = room, msg_userId = sock_user_id sk, msg_createdAt = t\<rparr>"
  define st1 where "st1 = log_effects [MessageCreate msg] (st\<lparr>messages := messages st @ [msg]\<rparr>)"
  obtain rs where d: "deliver sid sk room (payload (sock_username sk) msg) st1 = Some (emit_to rs (ChatMessage (payload (sock_username sk) msg)) st1)"
     "if startsWith room ''dm:'' then sid \<in> set rs else rs = in_room room st1"
    using deliver_shape by blast
  have "chatMessage env sid (room, content) st = assistant env room content (emit_to rs (ChatMessage (payload (sock_username sk) msg)) st1)"
    using assms d(1) by (simp add: chatMessage_def Let_def msg_def[symmetric] st1_def[symmetric])
  moreover have "in_room room st1 = in_room room st" by (simp add: st1_def)
  ultimately show ?thesis using d(2) unfolding st1_def msg_def by (intro exI[of _ rs]) simp
qed

lemma assistant_unconfigured:
  assumes "startsWith (toLowerCase content) ''@bot''" "\<not> startsWith room ''dm:''"
    and "trim (replaceBot content) \<noteq> []"
    and "OPENAI_API_KEY env = None \<or> OPENAI_API_KEY env = Some []"
    and "fst (getBotUser env st0) = Some b" "users st = users st0"
    and "bot_message_create env = Some t'"
  shows "\<exists>mid. (mid = [] \<or> mid = [UserCreate b])
      \<and> assistant env room content st =
          log_effects (GetAIResponse (trim (replaceBot content)) # UserFindUnique ''AI Bot'' # mid @
              MessageCreate \<lparr>msg_content = ''AI service is not configured.'', msg_room = room,
                             msg_userId = user_id b, msg_createdAt = t'\<rparr> #
              map (\<lambda>s. Emit s (ChatMessage \<lparr>data_content = ''AI service is not configured.'',
                                             data_username = ''AI Bot'', data_createdAt = t'\<rparr>))
                (in_room room st))
            (st\<lparr>users := users st @ (if mid = [] then [] else [b]),
                messages := messages st @
                  [\<lparr>msg_content = ''AI service is not configured.'', msg_room = room,
                    msg_userId = user_id b, msg_createdAt = t'\<rparr>]\<rparr>)"
proof -
  define p where "p = trim (replaceBot content)"
  define st1 where "st1 = log_effects [GetAIResponse p] st"
  have a: "getAIResponse env p st = (''AI service is not configured.'', st1)"
    using assms(4) by (simp add: getAIResponse_unconfigured st1_def)
  have "users st1 = users st0" using assms(6) by (simp add: st1_def)
  from getBotUser_found[OF assms(5) this]
  obtain mid where n: "user_username b = ''AI Bot''" and mid: "mid = [] \<or> mid = [UserCreate b]"
    and g: "getBotUser env st1 = (Some b, log_effects (UserFindUnique ''AI Bot'' # mid)
                    (st1\<lparr>users := users st1 @ (if mid = [] then [] else [b])\<rparr>))"
    by blast
  have "assistant env room content st =
          log_effects (GetAIResponse p # UserFindUnique ''AI Bot'' # mid @
              MessageCreate \<lparr>msg_content = ''AI service is not configured.'', msg_room = room,
                             msg_userId = user_id b, msg_createdAt = t'\<rparr> #
              map (\<lambda>s. Emit s (ChatMessage \<lparr>data_content = ''AI service is not configured.'',
                                             data_username = ''AI Bot'', data_createdAt = t'\<rparr>))
                (in_room room st))
            (st\<lparr>users := users st @ (if mid = [] then [] else [b]),
                messages := messages st @
                  [\<lparr>msg_content = ''AI service is not configured.'', msg_room = room,
                    msg_userId = user_id b, msg_createdAt = t'\<rparr>]\<rparr>)"
    using assms(1,2,3,7) a g n
    by (simp add: assistant_def p_def[symmetric] Let_def payload_def io_to_emit_def emit_to_def
          log_effects_def st1_def in_room_def)
  then show ?thesis using mid unfolding p_def by blast
qed

text \<open>
  C10. For a message that begins with \<open>@bot\<close> in any mix of cases and is empty once every
  \<open>@bot\<close> is taken out and the rest is trimmed, such as \<open>@bot\<close> itself, the handler does
  not call \<open>getAIResponse\<close>, does not look up or create the user of the assistant, and
  stores and emits nothing but the user's own message. When the sender is connected and
  the storage accepts the message, this one message is stored and sent like any other:
  to the sockets of the room for a named channel, to the sender at least for a
  direct-message room.
\<close>

theorem empty_prompt_no_assistant:
  assumes "startsWith (toLowerCase content) ''@bot''" and "trim (replaceBot content) = []"
  shows "(\<forall>p. GetAIResponse p \<notin> set (effects_of (chatMessage env sid (room, content)) st))
     \<and> UserFindUnique ''AI Bot'' \<notin> set (effects_of (chatMessage env sid (room, content)) st)
     \<and> users (chatMessage env sid (room, content) st) = users st
     \<and> (\<forall>m. MessageCreate m \<in> set (effects_of (chatMessage env sid (room, content)) st)
            \<longrightarrow> msg_content m = content \<and> msg_room m = room)
     \<and> (\<forall>s e. Emit s e \<in> set (effects_of (chatMessage env sid (room, content)) st)
            \<longrightarrow> (\<exists>d. e = ChatMessage d \<and> data_content d = content))
     \<and> (map_of (sockets st) sid = Some sk \<and> message_create env = Some t \<longrightarrow>
          (\<exists>rs. effects_of (chatMessage env sid (room, content)) st =
                  MessageCreate \<lparr>msg_content = content, msg_room = room,
                                 msg_userId = sock_user_id sk, msg_createdAt = t\<rparr> #
                  map (\<lambda>s. Emit s (ChatMessage \<lparr>data_content = content,
                         data_username = sock_username sk, data_createdAt = t\<rparr>)) rs
                \<and> (if startsWith room ''dm:'' then sid \<in> set rs else rs = in_room room st))
          \<and> messages (chatMessage env sid (room, content) st) =
              messages st @ [\<lparr>msg_content = content, msg_room = room,
                               msg_userId = sock_user_id sk, msg_createdAt = t\<rparr>])"
proof -
  let ?E = "effects_of (chatMessage env sid (room, content)) st"
  have exact: "\<exists>rs. ?E = MessageCreate \<lparr>msg_content = content, msg_room = room,
                                 msg_userId = sock_user_id sk, msg_createdAt = t\<rparr> #
                  map (\<lambda>s. Emit s (ChatMessage \<lparr>data_content = content,
                         data_username = sock_username sk, data_createdAt = t\<rparr>)) rs
                \<and> (if startsWith room ''dm:'' then sid \<in> set rs else rs = in_room room st)
                \<and> messages (chatMessage env sid (room, content) st) =
                    messages st @ [\<lparr>msg_content = content, msg_room = room,
                               msg_userId = sock_user_id sk, msg_createdAt = t\<rparr>]
                \<and> users (chatMessage env sid (room, content) st) = users st"
    if h: "map_of (sockets st) sid = Some sk" "message_create env = Some t" for sk t
  proof -
    define msg where "msg = \<lparr>msg_content = content, msg_room = room,
                             msg_userId = sock_user_id sk, msg_createdAt = t\<rparr>"
    obtain rs where c: "chatMessage env sid (room, content) st =
             assistant env room content
               (emit_to rs (ChatMessage (payload (sock_username sk) msg))
                 (log_effects [MessageCreate msg] (st\<lparr>messages := messages st @ [msg]\<rparr>)))"
       and rs: "if startsWith room ''dm:'' then sid \<in> set rs else rs = in_room room st"
      using chatMessage_shape[OF h] unfolding msg_def by blast
    have c': "chatMessage env sid (room, content) st =
               emit_to rs (ChatMessage (payload (sock_username sk) msg))
                 (log_effects [MessageCreate msg] (st\<lparr>messages := messages st @ [msg]\<rparr>))"
      using c assms(2) by (simp add: assistant_idle)
    have e: "?E = MessageCreate msg # map (\<lambda>s. Emit s (ChatMessage \<lparr>data_content = content,
                             data_username = sock_username sk, data_createdAt = t\<rparr>)) rs"
      by (rule effects_ofI) (simp add: c' payload_def msg_def)
    have "messages (chatMessage env sid (room, content) st) = messages st @ [msg]"
      "users (chatMessage env sid (room, content) st) = users st"
      unfolding c' by simp_all
    then show ?thesis using e rs unfolding msg_def by blast
  qed
  have general: "(\<forall>p. GetAIResponse p \<notin> set ?E) \<and> UserFindUnique ''AI Bot'' \<notin> set ?E
     \<and> users (chatMessage env sid (room, content) st) = users st
     \<and> (\<forall>m. MessageCreate m \<in> set ?E \<longrightarrow> msg_content m = content \<and> msg_room m = room)
     \<and> (\<forall>s e. Emit s e \<in> set ?E \<longrightarrow> (\<exists>d. e = ChatMessage d \<and> data_content d = content))"
  proof (cases "map_of (sockets st) sid")
    case None
    then have "chatMessage env sid (room, content) st = st" by (simp add: chatMessage_def)
    then show ?thesis by (simp add: effects_of_def)
  next
    case (Some sk)
    show ?thesis
    proof (cases "message_create env")
      case None
      then have "chatMessage env sid (room, content) st = log_effects [ConsoleError] st"
        using Some by (simp add: chatMessage_def)
      then show ?thesis by (simp add: effects_of_def)
    next
      case (Some t)
      from exact[OF \<open>map_of (sockets st) sid = Some sk\<close> Some]
      obtain rs where "?E = MessageCreate \<lparr>msg_content = content, msg_room = room,
                                 msg_userId = sock_user_id sk, msg_createdAt = t\<rparr> #
                  map (\<lambda>s. Emit s (ChatMessage \<lparr>data_content = content,
                         data_username = sock_username sk, data_createdAt = t\<rparr>)) rs"
        and "users (chatMessage env sid (room, content) st) = users st"
        by blast
      then show ?thesis by auto
    qed
  qed
  from general exact[of sk t] show ?thesis by blast
qed

theorem empty_prompt_no_assistant_witness:
  "startsWith (toLowerCase ''@bot'') ''@bot''
   \<and> trim (replaceBot ''@bot'') = []
   \<and> map_of (sockets alice_bob_general) ''s1'' =
       Some \<lparr>sock_user_id = 1, sock_username = ''alice'', sock_rooms = [''general'', ''s1'']\<rparr>
   \<and> message_create unconfigured = Some 5
   \<and> (\<forall>p. GetAIResponse p
          \<notin> set (effects_of (chatMessage unconfigured ''s1'' (''general'', ''@bot'')) alice_bob_general))
   \<and> effects_of (chatMessage unconfigured ''s1'' (''general'', ''@bot'')) alice_bob_general =
       [MessageCreate \<lparr>msg_content = ''@bot'', msg_room = ''general'', msg_userId = 1, msg_createdAt = 5\<rparr>,
        Emit ''s1'' (ChatMessage \<lparr>data_content = ''@bot'', data_username = ''alice'', data_createdAt = 5\<rparr>),
        Emit ''s2'' (ChatMessage \<lparr>data_content = ''@bot'', data_username = ''alice'', data_createdAt = 5\<rparr>)]
   \<and> messages (chatMessage unconfigured ''s1'' (''general'', ''@bot'') alice_bob_general) =
       messages alice_bob_general @
         [\<lparr>msg_content = ''@bot'', msg_room = ''general'', msg_userId = 1, msg_createdAt = 5\<rparr>]
   \<and> users (chatMessage unconfigured ''s1'' (''general'', ''@bot'') alice_bob_general) =
       users alice_bob_general"
proof -
  have h1: "map_of (sockets alice_bob_general) ''s1'' =
     Some \<lparr>sock_user_id = 1, sock_username = ''alice'', sock_rooms = [''general'', ''s1'']\<rparr>"
    by code_simp
  have h2: "message_create unconfigured = Some 5" by (simp add: unconfigured_def)
  have h3: "startsWith (toLowerCase ''@bot'') ''@bot''" by code_simp
  have h4: "trim (replaceBot ''@bot'') = []" by code_simp
  have g: "\<not> startsWith ''general'' ''dm:''" by (simp add: startsWith_def)
  have r: "in_room ''general'' alice_bob_general = [''s1'', ''s2'']" by code_simp
  note T = empty_prompt_no_assistant[OF h3 h4, where env = unconfigured and sid = "''s1''"
      and room = "''general''" and st = alice_bob_general and t = 5
      and sk = "\<lparr>sock_user_id = 1, sock_username = ''alice'', sock_rooms = [''general'', ''s1'']\<rparr>"]
  from T have a: "\<forall>p. GetAIResponse p
          \<notin> set (effects_of (chatMessage unconfigured ''s1'' (''general'', ''@bot'')) alice_bob_general)"
    by (rule conjunct1)
  from T have u: "users (chatMessage unconfigured ''s1'' (''general'', ''@bot'') alice_bob_general) =
       users alice_bob_general"
    by simp
  from T h1 h2 g r have e: "effects_of (chatMessage unconfigured ''s1'' (''general'', ''@bot'')) alice_bob_general =
       [MessageCreate \<lparr>msg_content = ''@bot'', msg_room = ''general'', msg_userId = 1, msg_createdAt = 5\<rparr>,
        Emit ''s1'' (ChatMessage \<lparr>data_content = ''@bot'', data_username = ''alice'', data_createdAt = 5\<rparr>),
        Emit ''s2'' (ChatMessage \<lparr>data_content = ''@bot'', data_username = ''alice'', data_createdAt = 5\<rparr>)]"
    by simp
  from T h1 h2 have m: "messages (chatMessage unconfigured ''s1'' (''general'', ''@bot'') alice_bob_general) =
       messages alice_bob_general @
         [\<lparr>msg_content = ''@bot'', msg_room = ''general'', msg_userId = 1, msg_createdAt = 5\<rparr>]"
    by simp
  from h3 h4 h1 h2 a e m u show ?thesis by (intro conjI)
qed

text \<open>
  C6, as the code has it. For a message that begins with \<open>@bot\<close> in any mix of cases, in
  a room that is not a direct-message room, and whose text is not empty once every
  \<open>@bot\<close> is taken out and the rest is trimmed, \<open>getAIResponse\<close> is called with that
  text, and every event of the handler goes to a socket of that room. When no key is
  configured (the variable is unset or empty), the assistant's user is found or created
  and the storage accepts the reply, a second message with the fixed text, from the user
  \<open>AI Bot\<close>, is stored and sent to the sockets of the same room.
\<close>

theorem assistant_invoked:
  assumes "map_of (sockets st) sid = Some sk" and "message_create env = Some t"
    and "startsWith (toLowerCase content) ''@bot''" and "\<not> startsWith room ''dm:''"
    and "trim (replaceBot content) \<noteq> []"
  shows "GetAIResponse (trim (replaceBot content))
           \<in> set (effects_of (chatMessage env sid (room, content)) st)
     \<and> (\<forall>s e. Emit s e \<in> set (effects_of (chatMessage env sid (room, content)) st)
            \<longrightarrow> s \<in> set (in_room room st))
     \<and> ((OPENAI_API_KEY env = None \<or> OPENAI_API_KEY env = Some [])
          \<and> fst (getBotUser env st) = Some b
          \<and> bot_message_create env = Some t' \<longrightarrow>
          user_username b = ''AI Bot''
          \<and> (\<exists>mid. (mid = [] \<or> mid = [UserCreate b])
               \<and> effects_of (chatMessage env sid (room, content)) st =
                   MessageCreate \<lparr>msg_content = content, msg_room = room,
                                  msg_userId = sock_user_id sk, msg_createdAt = t\<rparr> #
                   map (\<lambda>s. Emit s (ChatMessage \<lparr>data_content = content,
                                 data_username = sock_username sk, data_createdAt = t\<rparr>))
                     (in_room room st) @
                   GetAIResponse (trim (replaceBot content)) # UserFindUnique ''AI Bot'' # mid @
                   MessageCreate \<lparr>msg_content = ''AI service is not configured.'', msg_room = room,
                                  msg_userId = user_id b, msg_createdAt = t'\<rparr> #
                   map (\<lambda>s. Emit s (ChatMessage \<lparr>data_content = ''AI service is not configured.'',
                                 data_username = ''AI Bot'', data_createdAt = t'\<rparr>))
                     (in_room room st))
          \<and> messages (chatMessage env sid (room, content) st) =
              messages st @
                [\<lparr>msg_content = content, msg_room = room,
                  msg_userId = sock_user_id sk, msg_createdAt = t\<rparr>,
                 \<lparr>msg_content = ''AI service is not configured.'', msg_room = room,
                  msg_userId = user_id b, msg_createdAt = t'\<rparr>])"
proof -
  define msg where "msg = \<lparr>msg_content = content, msg_room = room,
                           msg_userId = sock_user_id sk, msg_createdAt = t\<rparr>"
  define st1 where "st1 = emit_to (in_room room st) (ChatMessage (payload (sock_username sk) msg))
               (log_effects [MessageCreate msg] (st\<lparr>messages := messages st @ [msg]\<rparr>))"
  have c: "chatMessage env sid (room, content) st = assistant env room content st1"
    using chatMessage_shape[OF assms(1,2), of room content] assms(4)
    unfolding msg_def st1_def by auto
  have t1: "trace st1 = trace st @ MessageCreate msg #
              map (\<lambda>s. Emit s (ChatMessage (payload (sock_username sk) msg))) (in_room room st)"
    by (simp add: st1_def)
  have r1: "in_room room st1 = in_room room st" by (simp add: st1_def)
  obtain es us ms where a: "assistant env room content st1 =
       log_effects es (st1\<lparr>users := users st1 @ us, messages := messages st1 @ ms\<rparr>)"
     and a2: "\<forall>s e. Emit s e \<in> set es \<longrightarrow> s \<in> set (in_room room st1)"
     and a3: "GetAIResponse (trim (replaceBot content)) \<in> set es"
    using assistant_shape[of env room content st1] assms(3,4,5) by blast
  have e: "effects_of (chatMessage env sid (room, content)) st =
            MessageCreate msg #
              map (\<lambda>s. Emit s (ChatMessage (payload (sock_username sk) msg))) (in_room room st) @ es"
    by (rule effects_ofI) (simp add: c a t1)
  have 1: "GetAIResponse (trim (replaceBot content))
           \<in> set (effects_of (chatMessage env sid (room, content)) st)"
    unfolding e using a3 by simp
  have 2: "\<forall>s e. Emit s e \<in> set (effects_of (chatMessage env sid (room, content)) st)
            \<longrightarrow> s \<in> set (in_room room st)"
    unfolding e using a2 r1 by auto
  have 3: "user_username b = ''AI Bot''
          \<and> (\<exists>mid. (mid = [] \<or> mid = [UserCreate b])
               \<and> effects_of (chatMessage env sid (room, content)) st =
                   MessageCreate msg #
                   map (\<lambda>s. Emit s (ChatMessage \<lparr>data_content = content,
                                 data_username = sock_username sk, data_createdAt = t\<rparr>))
                     (in_room room st) @
                   GetAIResponse (trim (replaceBot content)) # UserFindUnique ''AI Bot'' # mid @
                   MessageCreate \<lparr>msg_content = ''AI service is not configured.'', msg_room = room,
                                  msg_userId = user_id b, msg_createdAt = t'\<rparr> #
                   map (\<lambda>s. Emit s (ChatMessage \<lparr>data_content = ''AI service is not configured.'',
                                 data_username = ''AI Bot'', data_createdAt = t'\<rparr>))
                     (in_room room st))
          \<and> messages (chatMessage env sid (room, content) st) =
              messages st @
                [msg,
                 \<lparr>msg_content = ''AI service is not configured.'', msg_room = room,
                  msg_userId = user_id b, msg_createdAt = t'\<rparr>]"
    if h: "OPENAI_API_KEY env = None \<or> OPENAI_API_KEY env = Some []"
          "fst (getBotUser env st) = Some b"
          "bot_message_create env = Some t'"
  proof -
    have u: "users st1 = users st" by (simp add: st1_def)
    have n: "user_username b = ''AI Bot''"
      using getBotUser_found[OF h(2) refl] by blast
    obtain mid where mid: "mid = [] \<or> mid = [UserCreate b]"
      and b: "assistant env room content st1 =
          log_effects (GetAIResponse (trim (replaceBot content)) # UserFindUnique ''AI Bot'' # mid @
              MessageCreate \<lparr>msg_content = ''AI service is not configured.'', msg_room = room,
                             msg_userId = user_id b, msg_createdAt = t'\<rparr> #
              map (\<lambda>s. Emit s (ChatMessage \<lparr>data_content = ''AI service is not configured.'',
                                             data_username = ''AI Bot'', data_createdAt = t'\<rparr>))
                (in_room room st1))
            (st1\<lparr>users := users st1 @ (if mid = [] then [] else [b]),
                messages := messages st1 @
                  [\<lparr>msg_content = ''AI service is not configured.'', msg_room = room,
                    msg_userId = user_id b, msg_createdAt = t'\<rparr>]\<rparr>)"
      using assistant_unconfigured[OF assms(3,4,5) h(1,2) u h(3)] by blast
    have e': "effects_of (chatMessage env sid (room, content)) st =
                   MessageCreate msg #
                   map (\<lambda>s. Emit s (ChatMessage \<lparr>data_content = content,
                                 data_username = sock_username sk, data_createdAt = t\<rparr>))
                     (in_room room st) @
                   GetAIResponse (trim (replaceBot content)) # UserFindUnique ''AI Bot'' # mid @
                   MessageCreate \<lparr>msg_content = ''AI service is not configured.'', msg_room = room,
                                  msg_userId = user_id b, msg_createdAt = t'\<rparr> #
                   map (\<lambda>s. Emit s (ChatMessage \<lparr>data_content = ''AI service is not configured.'',
                                 data_username = ''AI Bot'', data_createdAt = t'\<rparr>))
                     (in_room room st)"
      by (rule effects_ofI) (simp add: c b t1 r1 payload_def msg_def)
    have m: "messages (chatMessage env sid (room, content) st) =
              messages st @
                [msg,
                 \<lparr>msg_content = ''AI service is not configured.'', msg_room = room,
                  msg_userId = user_id b, msg_createdAt = t'\<rparr>]"
    proof -
      have "messages st1 = messages st @ [msg]" by (simp add: st1_def)
      then show ?thesis by (simp add: c b)
    qed
    from n mid e' m show ?thesis by blast
  qed
  from 1 2 3 show ?thesis unfolding msg_def by blast
qed

theorem assistant_invoked_witness:
  "map_of (sockets alice_bob_general) ''s1'' =
     Some \<lparr>sock_user_id = 1, sock_username = ''alice'', sock_rooms = [''general'', ''s1'']\<rparr>
   \<and> message_create unconfigured = Some 5
   \<and> startsWith (toLowerCase ''@bot what time is it'') ''@bot''
   \<and> \<not> startsWith ''general'' ''dm:''
   \<and> trim (replaceBot ''@bot what time is it'') = ''what time is it''
   \<and> OPENAI_API_KEY unconfigured = None
   \<and> fst (getBotUser unconfigured alice_bob_general) =
       Some \<lparr>user_id = 3, user_username = ''AI Bot'', user_password_hash = ''hash''\<rparr>
   \<and> bot_message_create unconfigured = Some 6
   \<and> GetAIResponse ''what time is it''
        \<in> set (effects_of (chatMessage unconfigured ''s1'' (''general'', ''@bot what time is it''))
                 alice_bob_general)
   \<and> messages (chatMessage unconfigured ''s1'' (''general'', ''@bot what time is it'') alice_bob_general) =
       messages alice_bob_general @
         [\<lparr>msg_content = ''@bot what time is it'', msg_room = ''general'', msg_userId = 1,
           msg_createdAt = 5\<rparr>,
          \<lparr>msg_content = ''AI service is not configured.'', msg_room = ''general'', msg_userId = 3,
           msg_createdAt = 6\<rparr>]
   \<and> effects_of (chatMessage unconfigured ''s1'' (''general'', ''@bot what time is it''))
         alice_bob_general =
       [MessageCreate \<lparr>msg_content = ''@bot what time is it'', msg_room = ''general'',
                       msg_userId = 1, msg_createdAt = 5\<rparr>,
        Emit ''s1'' (ChatMessage \<lparr>data_content = ''@bot what time is it'',
                                  data_username = ''alice'', data_createdAt = 5\<rparr>),
        Emit ''s2'' (ChatMessage \<lparr>data_content = ''@bot what time is it'',
                                  data_username = ''alice'', data_createdAt = 5\<rparr>),
        GetAIResponse ''what time is it'', UserFindUnique ''AI Bot'',
        UserCreate \<lparr>user_id = 3, user_username = ''AI Bot'', user_password_hash = ''hash''\<rparr>,
        MessageCreate \<lparr>msg_content = ''AI service is not configured.'', msg_room = ''general'',
                       msg_userId = 3, msg_createdAt = 6\<rparr>,
        Emit ''s1'' (ChatMessage \<lparr>data_content = ''AI service is not configured.'',
                                  data_username = ''AI Bot'', data_createdAt = 6\<rparr>),
        Emit ''s2'' (ChatMessage \<lparr>data_content = ''AI service is not configured.'',
                                  data_username = ''AI Bot'', data_createdAt = 6\<rparr>)]"
proof -
  have h1: "map_of (sockets alice_bob_general) ''s1'' =
     Some \<lparr>sock_user_id = 1, sock_username = ''alice'', sock_rooms = [''general'', ''s1'']\<rparr>"
    by code_simp
  have h2: "message_create unconfigured = Some 5" by (simp add: unconfigured_def)
  have h3: "startsWith (toLowerCase ''@bot what time is it'') ''@bot''" by code_simp
  have h4: "\<not> startsWith ''general'' ''dm:''" by (simp add: startsWith_def)
  have p: "trim (replaceBot ''@bot what time is it'') = ''what time is it''" by code_simp
  then have h5: "trim (replaceBot ''@bot what time is it'') \<noteq> []" by simp
  have h6: "OPENAI_API_KEY unconfigured = None" by (simp add: unconfigured_def)
  have h7: "fst (getBotUser unconfigured alice_bob_general) =
       Some \<lparr>user_id = 3, user_username = ''AI Bot'', user_password_hash = ''hash''\<rparr>"
    by code_simp
  have h8: "bot_message_create unconfigured = Some 6" by (simp add: unconfigured_def)
  have e: "effects_of (chatMessage unconfigured ''s1'' (''general'', ''@bot what time is it''))
         alice_bob_general =
       [MessageCreate \<lparr>msg_content = ''@bot what time is it'', msg_room = ''general'',
                       msg_userId = 1, msg_createdAt = 5\<rparr>,
        Emit ''s1'' (ChatMessage \<lparr>data_content = ''@bot what time is it'',
                                  data_username = ''alice'', data_createdAt = 5\<rparr>),
        Emit ''s2'' (ChatMessage \<lparr>data_content = ''@bot what time is it'',
                                  data_username = ''alice'', data_createdAt = 5\<rparr>),
        GetAIResponse ''what time is it'', UserFindUnique ''AI Bot'',
        UserCreate \<lparr>user_id = 3, user_username = ''AI Bot'', user_password_hash = ''hash''\<rparr>,
        MessageCreate \<lparr>msg_content = ''AI service is not configured.'', msg_room = ''general'',
                       msg_userId = 3, msg_createdAt = 6\<rparr>,
        Emit ''s1'' (ChatMessage \<lparr>data_content = ''AI service is not configured.'',
                                  data_username = ''AI Bot'', data_createdAt = 6\<rparr>),
        Emit ''s2'' (ChatMessage \<lparr>data_content = ''AI service is not configured.'',
                                  data_username = ''AI Bot'', data_createdAt = 6\<rparr>)]"
    by code_simp
  note T = assistant_invoked[OF h1 h2 h3 h4 h5,
      where b = "\<lparr>user_id = 3, user_username = ''AI Bot'', user_password_hash = ''hash''\<rparr>"
        and t' = 6]
  from T have c1: "GetAIResponse (trim (replaceBot ''@bot what time is it''))
        \<in> set (effects_of (chatMessage unconfigured ''s1'' (''general'', ''@bot what time is it''))
                 alice_bob_general)"
    by (rule conjunct1)
  from T h6 h7 h8 have c3: "messages (chatMessage unconfigured ''s1'' (''general'', ''@bot what time is it'') alice_bob_general) =
       messages alice_bob_general @
         [\<lparr>msg_content = ''@bot what time is it'', msg_room = ''general'', msg_userId = 1,
           msg_createdAt = 5\<rparr>,
          \<lparr>msg_content = ''AI service is not configured.'', msg_room = ''general'', msg_userId = 3,
           msg_createdAt = 6\<rparr>]"
    by simp
  from h1 h2 h3 h4 p h6 h7 h8 c1 c3 e show ?thesis by (simp only: simp_thms)
qed

text \<open>
  C6 as stated fails: for the message \<open>@bot\<close> in \<open>general\<close> the assistant is not called at
  all, and for \<open>@bot say @BOT\<close> it is called with \<open>say\<close>, not with the text that follows
  the leading token.
\<close>

theorem bare_token_not_answered:
  "startsWith (toLowerCase ''@bot'') ''@bot''
   \<and> \<not> startsWith ''general'' ''dm:''
   \<and> effects_of (chatMessage unconfigured ''s1'' (''general'', ''@bot'')) alice_bob_general =
       [MessageCreate \<lparr>msg_content = ''@bot'', msg_room = ''general'', msg_userId = 1, msg_createdAt = 5\<rparr>,
        Emit ''s1'' (ChatMessage \<lparr>data_content = ''@bot'', data_username = ''alice'', data_createdAt = 5\<rparr>),
        Emit ''s2'' (ChatMessage \<lparr>data_content = ''@bot'', data_username = ''alice'', data_createdAt = 5\<rparr>)]
   \<and> startsWith (toLowerCase ''@bot say @BOT'') ''@bot''
   \<and> GetAIResponse ''say''
        \<in> set (effects_of (chatMessage unconfigured ''s1'' (''general'', ''@bot say @BOT'')) alice_bob_general)
   \<and> GetAIResponse ''say @BOT''
        \<notin> set (effects_of (chatMessage unconfigured ''s1'' (''general'', ''@bot say @BOT'')) alice_bob_general)"
proof -
  have 1: "startsWith (toLowerCase ''@bot'') ''@bot''" by code_simp
  have 2: "\<not> startsWith ''general'' ''dm:''" by (simp add: startsWith_def)
  have 3: "effects_of (chatMessage unconfigured ''s1'' (''general'', ''@bot'')) alice_bob_general =
       [MessageCreate \<lparr>msg_content = ''@bot'', msg_room = ''general'', msg_userId = 1, msg_createdAt = 5\<rparr>,
        Emit ''s1'' (ChatMessage \<lparr>data_content = ''@bot'', data_username = ''alice'', data_createdAt = 5\<rparr>),
        Emit ''s2'' (ChatMessage \<lparr>data_content = ''@bot'', data_username = ''alice'', data_createdAt = 5\<rparr>)]"
    by code_simp
  have 4: "startsWith (toLowerCase ''@bot say @BOT'') ''@bot''" by code_simp
  have 5: "GetAIResponse ''say''
        \<in> set (effects_of (chatMessage unconfigured ''s1'' (''general'', ''@bot say @BOT'')) alice_bob_general)"
    by code_simp
  have 6: "GetAIResponse ''say @BOT''
        \<notin> set (effects_of (chatMessage unconfigured ''s1'' (''general'', ''@bot say @BOT'')) alice_bob_general)"
    by code_simp
  from 1 2 3 4 5 6 show ?thesis by (simp only: simp_thms)
qed

text \<open>
  C2, as the code has it. The server does not validate a request to send: whenever the
  sender's socket is connected and the storage accepts the message, the message is stored
  with the content as it came and is sent out, to the sockets of the room for a named
  channel and to the sender at least for a direct-message room, whatever the content and
  whether or not the sender has joined the room. The only check is in the client:
  \<open>handleSubmit\<close> emits the trimmed input, and only when it is not empty and the socket is
  connected.
\<close>

theorem send_not_validated:
  "(map_of (sockets st) sid = Some sk \<and> message_create env = Some t \<longrightarrow>
      (\<exists>rest. messages (chatMessage env sid (room, content) st) =
                messages st @ \<lparr>msg_content = content, msg_room = room,
                                msg_userId = sock_user_id sk, msg_createdAt = t\<rparr> # rest)
      \<and> (\<exists>rs rest. effects_of (chatMessage env sid (room, content)) st =
            MessageCreate \<lparr>msg_content = content, msg_room = room,
                           msg_userId = sock_user_id sk, msg_createdAt = t\<rparr> #
            map (\<lambda>s. Emit s (ChatMessage \<lparr>data_content = content,
                          data_username = sock_username sk, data_createdAt = t\<rparr>)) rs @ rest
          \<and> (if startsWith room ''dm:'' then sid \<in> set rs else rs = in_room room st)))
   \<and> fst (handleSubmit message room' connected) =
       (if trim message \<noteq> [] \<and> connected
        then [EmitChatMessage room' (trim message), EmitStopTyping room'] else [])"
proof -
  have A: "(\<exists>rest. messages (chatMessage env sid (room, content) st) =
                messages st @ \<lparr>msg_content = content, msg_room = room,
                                msg_userId = sock_user_id sk, msg_createdAt = t\<rparr> # rest)
      \<and> (\<exists>rs rest. effects_of (chatMessage env sid (room, content)) st =
            MessageCreate \<lparr>msg_content = content, msg_room = room,
                           msg_userId = sock_user_id sk, msg_createdAt = t\<rparr> #
            map (\<lambda>s. Emit s (ChatMessage \<lparr>data_content = content,
                          data_username = sock_username sk, data_createdAt = t\<rparr>)) rs @ rest
          \<and> (if startsWith room ''dm:'' then sid \<in> set rs else rs = in_room room st))"
    if h: "map_of (sockets st) sid = Some sk" "message_create env = Some t"
  proof -
    define msg where "msg = \<lparr>msg_content = content, msg_room = room,
                           msg_userId = sock_user_id sk, msg_createdAt = t\<rparr>"
    obtain rs where c: "chatMessage env sid (room, content) st =
           assistant env room content
             (emit_to rs (ChatMessage (payload (sock_username sk) msg))
               (log_effects [MessageCreate msg] (st\<lparr>messages := messages st @ [msg]\<rparr>)))"
      and rs: "if startsWith room ''dm:'' then sid \<in> set rs else rs = in_room room st"
      using chatMessage_shape[OF h] unfolding msg_def by blast
    define st1 where "st1 = emit_to rs (ChatMessage (payload (sock_username sk) msg))
               (log_effects [MessageCreate msg] (st\<lparr>messages := messages st @ [msg]\<rparr>))"
    obtain es us ms where a: "assistant env room content st1 =
       log_effects es (st1\<lparr>users := users st1 @ us, messages := messages st1 @ ms\<rparr>)"
      using assistant_shape[of env room content st1] by blast
    have m1: "messages st1 = messages st @ [msg]" by (simp add: st1_def)
    have t1: "trace st1 = trace st @ MessageCreate msg #
                map (\<lambda>s. Emit s (ChatMessage (payload (sock_username sk) msg))) rs"
      by (simp add: st1_def)
    have c': "chatMessage env sid (room, content) st = assistant env room content st1"
      using c by (simp only: st1_def)
    have pd: "payload (sock_username sk) msg = \<lparr>data_content = content,
                          data_username = sock_username sk, data_createdAt = t\<rparr>"
      by (simp add: payload_def msg_def)
    have "messages (chatMessage env sid (room, content) st) = messages st @ msg # ms"
      by (simp add: c' a m1)
    moreover have "effects_of (chatMessage env sid (room, content)) st =
            MessageCreate msg # map (\<lambda>s. Emit s (ChatMessage \<lparr>data_content = content,
                          data_username = sock_username sk, data_createdAt = t\<rparr>)) rs @ es"
      by (rule effects_ofI) (simp add: c' a t1 pd)
    ultimately show ?thesis using rs unfolding msg_def by blast
  qed
  have B: "fst (handleSubmit message room' connected) =
       (if trim message \<noteq> [] \<and> connected
        then [EmitChatMessage room' (trim message), EmitStopTyping room'] else [])"
    by (simp add: handleSubmit_def)
  from A B show ?thesis by blast
qed

theorem send_not_validated_witness:
  "map_of (sockets alice_outside) ''s1'' =
     Some \<lparr>sock_user_id = 1, sock_username = ''alice'', sock_rooms = [''s1'']\<rparr>
   \<and> message_create unconfigured = Some 5
   \<and> \<not> startsWith ''general'' ''dm:''
   \<and> (\<exists>rest. messages (chatMessage unconfigured ''s1'' (''general'', ''hello'') alice_outside) =
         messages alice_outside @
           \<lparr>msg_content = ''hello'', msg_room = ''general'', msg_userId = 1, msg_createdAt = 5\<rparr> # rest)
   \<and> (\<exists>rest. effects_of (chatMessage unconfigured ''s1'' (''general'', ''hello'')) alice_outside =
         MessageCreate \<lparr>msg_content = ''hello'', msg_room = ''general'', msg_userId = 1, msg_createdAt = 5\<rparr> #
         map (\<lambda>s. Emit s (ChatMessage \<lparr>data_content = ''hello'', data_username = ''alice'',
                                        data_createdAt = 5\<rparr>)) (in_room ''general'' alice_outside) @ rest)
   \<and> in_room ''general'' alice_outside = [''s2'']
   \<and> fst (handleSubmit ''  hello '' ''general'' True) =
       [EmitChatMessage ''general'' ''hello'', EmitStopTyping ''general'']
   \<and> fst (handleSubmit ''   '' ''general'' True) = []"
proof -
  have h1: "map_of (sockets alice_outside) ''s1'' =
     Some \<lparr>sock_user_id = 1, sock_username = ''alice'', sock_rooms = [''s1'']\<rparr>"
    by code_simp
  have h2: "message_create unconfigured = Some 5" by (simp add: unconfigured_def)
  have g: "\<not> startsWith ''general'' ''dm:''" by (simp add: startsWith_def)
  have r: "in_room ''general'' alice_outside = [''s2'']" by code_simp
  have t1: "trim ''  hello '' = ''hello''" by code_simp
  have t2: "trim ''   '' = []" by code_simp
  note T = send_not_validated[where st = alice_outside and sid = "''s1''" and env = unconfigured
      and room = "''general''" and content = "''hello''" and t = 5
      and sk = "\<lparr>sock_user_id = 1, sock_username = ''alice'', sock_rooms = [''s1'']\<rparr>"
      and room' = "''general''"]
  have a: "fst (handleSubmit ''  hello '' ''general'' True) =
       [EmitChatMessage ''general'' ''hello'', EmitStopTyping ''general'']"
    using T[where message = "''  hello ''" and connected = True] t1 by simp
  have b: "fst (handleSubmit ''   '' ''general'' True) = []"
    using T[where message = "''   ''" and connected = True] t2 by simp
  have c: "(\<exists>rest. messages (chatMessage unconfigured ''s1'' (''general'', ''hello'') alice_outside) =
         messages alice_outside @
           \<lparr>msg_content = ''hello'', msg_room = ''general'', msg_userId = 1, msg_createdAt = 5\<rparr> # rest)
   \<and> (\<exists>rest. effects_of (chatMessage unconfigured ''s1'' (''general'', ''hello'')) alice_outside =
         MessageCreate \<lparr>msg_content = ''hello'', msg_room = ''general'', msg_userId = 1, msg_createdAt = 5\<rparr> #
         map (\<lambda>s. Emit s (ChatMessage \<lparr>data_content = ''hello'', data_username = ''alice'',
                                        data_createdAt = 5\<rparr>)) (in_room ''general'' alice_outside) @ rest)"
    using T[where message = "''   ''" and connected = True] h1 h2 g by simp
  from h1 h2 g r a b c show ?thesis by (simp only: simp_thms)
qed

text \<open>
  C2 as stated fails: Alice has not joined \<open>general\<close> and sends three spaces to it; the
  message is stored and Bob, who is in \<open>general\<close>, receives it.
\<close>

theorem blank_message_from_outside:
  "trim ''   '' = []
   \<and> map_of (sockets alice_outside) ''s1'' =
       Some \<lparr>sock_user_id = 1, sock_username = ''alice'', sock_rooms = [''s1'']\<rparr>
   \<and> ''general'' \<notin> set [''s1'']
   \<and> messages (chatMessage unconfigured ''s1'' (''general'', ''   '') alice_outside) =
       [\<lparr>msg_content = ''   '', msg_room = ''general'', msg_userId = 1, msg_createdAt = 5\<rparr>]
   \<and> effects_of (chatMessage unconfigured ''s1'' (''general'', ''   '')) alice_outside =
       [MessageCreate \<lparr>msg_content = ''   '', msg_room = ''general'', msg_userId = 1, msg_createdAt = 5\<rparr>,
        Emit ''s2'' (ChatMessage \<lparr>data_content = ''   '', data_username = ''alice'', data_createdAt = 5\<rparr>)]"
proof -
  have 1: "trim ''   '' = []" by code_simp
  have 2: "map_of (sockets alice_outside) ''s1'' =
       Some \<lparr>sock_user_id = 1, sock_username = ''alice'', sock_rooms = [''s1'']\<rparr>"
    by code_simp
  have 3: "''general'' \<notin> set [''s1'']" by simp
  have 4: "messages (chatMessage unconfigured ''s1'' (''general'', ''   '') alice_outside) =
       [\<lparr>msg_content = ''   '', msg_room = ''general'', msg_userId = 1, msg_createdAt = 5\<rparr>]"
    by code_simp
  have 5: "effects_of (chatMessage unconfigured ''s1'' (''general'', ''   '')) alice_outside =
       [MessageCreate \<lparr>msg_content = ''   '', msg_room = ''general'', msg_userId = 1, msg_createdAt = 5\<rparr>,
        Emit ''s2'' (ChatMessage \<lparr>data_content = ''   '', data_username = ''alice'', data_createdAt = 5\<rparr>)]"
    by code_simp
  from 1 2 3 4 5 show ?thesis by (simp only: simp_thms)
qed

section \<open>Runs: sockets, rooms and users\<close>

lemma assistant_frame:
  "sockets (assistant env room content st) = sockets st
   \<and> userSockets (assistant env room content st) = userSockets st"
proof -
  obtain es us ms where "assistant env room content st =
       log_effects es (st\<lparr>users := users st @ us, messages := messages st @ ms\<rparr>)"
    using assistant_shape[of env room content st] by blast
  then show ?thesis by simp
qed

lemma chatMessage_frame:
  "sockets (chatMessage env sid d st) = sockets st \<and> userSockets (chatMessage env sid d st) = userSockets st"
proof (cases "map_of (sockets st) sid")
  case None
  then show ?thesis by (simp add: chatMessage_def)
next
  case (Some sk)
  show ?thesis
  proof (cases "message_create env")
    case None
    then show ?thesis using Some by (simp add: chatMessage_def)
  next
    case (Some t)
    obtain rs where c0: "chatMessage env sid (fst d, snd d) st =
           assistant env (fst d) (snd d)
             (emit_to rs (ChatMessage (payload (sock_username sk)
                  \<lparr>msg_content = snd d, msg_room = fst d, msg_userId = sock_user_id sk, msg_createdAt = t\<rparr>))
               (log_effects [MessageCreate \<lparr>msg_content = snd d, msg_room = fst d, msg_userId = sock_user_id sk, msg_createdAt = t\<rparr>]
                  (st\<lparr>messages := messages st @ [\<lparr>msg_content = snd d, msg_room = fst d, msg_userId = sock_user_id sk, msg_createdAt = t\<rparr>]\<rparr>)))"
      using chatMessage_shape[OF \<open>map_of (sockets st) sid = Some sk\<close> Some, of "fst d" "snd d"]
      by blast
    define st1 where "st1 = emit_to rs (ChatMessage (payload (sock_username sk)
                  \<lparr>msg_content = snd d, msg_room = fst d, msg_userId = sock_user_id sk, msg_createdAt = t\<rparr>))
               (log_effects [MessageCreate \<lparr>msg_content = snd d, msg_room = fst d, msg_userId = sock_user_id sk, msg_createdAt = t\<rparr>]
                  (st\<lparr>messages := messages st @ [\<lparr>msg_content = snd d, msg_room = fst d, msg_userId = sock_user_id sk, msg_createdAt = t\<rparr>]\<rparr>))"
    have c: "chatMessage env sid (fst d, snd d) st = assistant env (fst d) (snd d) st1"
      using c0 by (simp only: st1_def)
    have "sockets st1 = sockets st" "userSockets st1 = userSockets st"
      by (simp_all add: st1_def)
    then show ?thesis using assistant_frame[of env "fst d" "snd d" st1] c by simp
  qed
qed

lemma joinRoom_sockets:
  "sockets (joinRoom env s room st) = sockets (socket_join s room st)"
  by (auto simp: joinRoom_def socket_join_def socket_emit_def Let_def split: option.splits)

lemma joinRoom_frame:
  "userSockets (joinRoom env s room st) = userSockets st \<and> users (joinRoom env s room st) = users st"
  by (auto simp: joinRoom_def socket_join_def socket_emit_def Let_def log_effects_def emit_to_def split: option.splits)

lemma typing_frame:
  "sockets (typing s room st) = sockets st" "userSockets (typing s room st) = userSockets st"
  "users (typing s room st) = users st"
  "sockets (stopTyping s room st) = sockets st" "userSockets (stopTyping s room st) = userSockets st"
  "users (stopTyping s room st) = users st"
  by (auto simp: typing_def stopTyping_def socket_to_emit_def split: option.splits)

lemma connection_sockets:
  "sockets (connection s user st) =
     sockets st @ [(s, \<lparr>sock_user_id = fst user, sock_username = snd user, sock_rooms = [s]\<rparr>)]"
  "userSockets (connection s user st) = AList.update (snd user) s (userSockets st)"
  "users (connection s user st) = users st"
  by (simp_all add: connection_def io_emit_def Let_def)

lemma disconnect_sockets:
  "map_of (sockets st) s = Some sk \<Longrightarrow> sockets (disconnect s st) = AList.delete s (sockets st)"
  "map_of (sockets st) s = Some sk \<Longrightarrow>
     userSockets (disconnect s st) = AList.delete (sock_username sk) (userSockets st)"
  "map_of (sockets st) s = None \<Longrightarrow> disconnect s st = st"
  "users (disconnect s st) = users st"
  by (auto simp: disconnect_def io_emit_def Let_def split: option.splits)

lemma map_of_append_Some: "map_of xs k = Some v \<Longrightarrow> map_of (xs @ ys) k = Some v"
  by (simp add: map_add_def)

lemma step_rooms:
  assumes "map_of (sockets st) sid = Some sk" and "req \<noteq> Disconnect sid"
  shows "\<exists>sk'. map_of (sockets (step req st)) sid = Some sk'
           \<and> set (sock_rooms sk') = set (sock_rooms sk) \<union> set (rooms_joined sid [req])
           \<and> sock_username sk' = sock_username sk"
proof (cases req)
  case (Connection s user)
  then show ?thesis using assms(1) by (auto simp: connection_sockets map_of_append_Some)
next
  case (JoinRoom env s room)
  show ?thesis
  proof (cases "s = sid")
    case True
    then show ?thesis using assms(1) JoinRoom
      by (simp add: joinRoom_sockets socket_join_def AList.update_conv') 
  next
    case False
    then show ?thesis using assms(1) JoinRoom
      by (auto simp add: joinRoom_sockets socket_join_def AList.update_conv' split: option.splits) 
  qed
next
  case (ChatMessageReq env s d)
  then show ?thesis using assms(1) by (simp add: chatMessage_frame)
next
  case (TypingReq s room)
  then show ?thesis using assms(1) by (simp add: typing_frame)
next
  case (StopTypingReq s room)
  then show ?thesis using assms(1) by (simp add: typing_frame)
next
  case (Disconnect s)
  then have "s \<noteq> sid" using assms(2) by simp
  show ?thesis
  proof (cases "map_of (sockets st) s")
    case None
    then show ?thesis using Disconnect assms(1) by (simp add: disconnect_sockets)
  next
    case (Some a)
    then show ?thesis using Disconnect assms(1) \<open>s \<noteq> sid\<close> by (simp add: disconnect_sockets)
  qed
qed

lemma rooms_joined_append: "rooms_joined sid (xs @ ys) = rooms_joined sid xs @ rooms_joined sid ys"
  by (induction sid xs rule: rooms_joined.induct) auto

lemma rooms_joined_Cons: "rooms_joined sid (x # xs) = rooms_joined sid [x] @ rooms_joined sid xs"
  using rooms_joined_append[of sid "[x]" xs] by simp

lemma run_rooms:
  assumes "map_of (sockets st) sid = Some sk" and "Disconnect sid \<notin> set reqs"
  shows "\<exists>sk'. map_of (sockets (run reqs st)) sid = Some sk'
           \<and> set (sock_rooms sk') = set (sock_rooms sk) \<union> set (rooms_joined sid reqs)"
  using assms
proof (induction reqs arbitrary: st sk)
  case Nil
  then show ?case by (simp add: run_def)
next
  case (Cons req reqs)
  from Cons.prems have ne: "req \<noteq> Disconnect sid" and rest: "Disconnect sid \<notin> set reqs" by auto
  obtain sk1 where s1: "map_of (sockets (step req st)) sid = Some sk1"
    and r1: "set (sock_rooms sk1) = set (sock_rooms sk) \<union> set (rooms_joined sid [req])"
    using step_rooms[OF Cons.prems(1) ne] by blast
  obtain sk' where s2: "map_of (sockets (run reqs (step req st))) sid = Some sk'"
    and r2: "set (sock_rooms sk') = set (sock_rooms sk1) \<union> set (rooms_joined sid reqs)"
    using Cons.IH[OF s1 rest] by blast
  have "run (req # reqs) st = run reqs (step req st)" by (simp add: run_def)
  moreover have "set (rooms_joined sid (req # reqs)) = set (rooms_joined sid [req]) \<union> set (rooms_joined sid reqs)"
    using rooms_joined_Cons[of sid req reqs] by simp
  ultimately show ?case using s2 r1 r2 by auto
qed

lemma in_room_member:
  "map_of (sockets st) sid = Some sk \<Longrightarrow> room \<in> set (sock_rooms sk) \<Longrightarrow> sid \<in> set (in_room room st)"
proof -
  assume "map_of (sockets st) sid = Some sk" and r: "room \<in> set (sock_rooms sk)"
  then have "(sid, sk) \<in> set (sockets st)" by (auto dest: map_of_SomeD)
  then have "(sid, sk) \<in> set (filter (\<lambda>(s, sk). room \<in> set (sock_rooms sk)) (sockets st))"
    using r by simp
  then have "fst (sid, sk) \<in> fst ` set (filter (\<lambda>(s, sk). room \<in> set (sock_rooms sk)) (sockets st))"
    by (rule imageI)
  then show ?thesis by (simp add: in_room_def)
qed

lemma channel_message_effects:
  assumes "map_of (sockets st) s = Some sender" and "message_create env = Some t"
    and "\<not> startsWith room ''dm:''"
  shows "\<exists>rest. effects_of (chatMessage env s (room, content)) st =
            MessageCreate \<lparr>msg_content = content, msg_room = room,
                           msg_userId = sock_user_id sender, msg_createdAt = t\<rparr> #
            map (\<lambda>r. Emit r (ChatMessage \<lparr>data_content = content,
                          data_username = sock_username sender, data_createdAt = t\<rparr>))
              (in_room room st) @ rest"
proof -
  define msg where "msg = \<lparr>msg_content = content, msg_room = room,
                           msg_userId = sock_user_id sender, msg_createdAt = t\<rparr>"
  define st1 where "st1 = emit_to (in_room room st) (ChatMessage (payload (sock_username sender) msg))
               (log_effects [MessageCreate msg] (st\<lparr>messages := messages st @ [msg]\<rparr>))"
  have c: "chatMessage env s (room, content) st = assistant env room content st1"
    using chatMessage_shape[OF assms(1,2), of room content] assms(3)
    unfolding msg_def st1_def by auto
  have t1: "trace st1 = trace st @ MessageCreate msg #
              map (\<lambda>r. Emit r (ChatMessage (payload (sock_username sender) msg))) (in_room room st)"
    by (simp add: st1_def)
  obtain es us ms where a: "assistant env room content st1 =
       log_effects es (st1\<lparr>users := users st1 @ us, messages := messages st1 @ ms\<rparr>)"
    using assistant_shape[of env room content st1] by blast
  have pd: "payload (sock_username sender) msg = \<lparr>data_content = content,
                          data_username = sock_username sender, data_createdAt = t\<rparr>"
    by (simp add: payload_def msg_def)
  have "effects_of (chatMessage env s (room, content)) st =
            MessageCreate msg # map (\<lambda>r. Emit r (ChatMessage \<lparr>data_content = content,
                          data_username = sock_username sender, data_createdAt = t\<rparr>))
              (in_room room st) @ es"
    by (rule effects_ofI) (simp add: c a t1 pd)
  then show ?thesis unfolding msg_def by blast
qed

text \<open>
  C5, as the code has it. The server has no request to leave a room. A socket that
  connects is in the room of its own id only. As long as it is connected it is in the
  rooms it was in before and in every room it has been asked to join since, whatever else
  the server handles in between: joining a room does not leave the one joined before. The
  memberships end when the socket disconnects. A stored message to a room without the
  prefix \<open>dm:\<close> is emitted to every connected socket that is in the room.
\<close>

theorem joinRoom_accumulates:
  "(sid \<notin> set (map fst (sockets st)) \<longrightarrow>
      map_of (sockets (connection sid user st)) sid =
        Some \<lparr>sock_user_id = fst user, sock_username = snd user, sock_rooms = [sid]\<rparr>)
   \<and> (map_of (sockets st) sid = Some sk \<and> Disconnect sid \<notin> set reqs \<longrightarrow>
        (\<exists>sk'. map_of (sockets (run reqs st)) sid = Some sk'
           \<and> set (sock_rooms sk') = set (sock_rooms sk) \<union> set (rooms_joined sid reqs)))
   \<and> map_of (sockets (disconnect sid st)) sid = None
   \<and> (map_of (sockets st) sid = Some sk \<and> room \<in> set (sock_rooms sk)
        \<and> map_of (sockets st) s = Some sender \<and> message_create env = Some t
        \<and> \<not> startsWith room ''dm:'' \<longrightarrow>
        Emit sid (ChatMessage \<lparr>data_content = content, data_username = sock_username sender,
                                data_createdAt = t\<rparr>)
          \<in> set (effects_of (chatMessage env s (room, content)) st))"
proof -
  have 0: "map_of (sockets (connection sid user st)) sid =
        Some \<lparr>sock_user_id = fst user, sock_username = snd user, sock_rooms = [sid]\<rparr>"
    if "sid \<notin> set (map fst (sockets st))"
  proof -
    have "map_of (sockets st) sid = None" using that by (simp add: map_of_eq_None_iff)
    then show ?thesis by (simp add: connection_sockets map_add_def)
  qed
  have 1: "map_of (sockets st) sid = Some sk \<and> Disconnect sid \<notin> set reqs \<longrightarrow>
      (\<exists>sk'. map_of (sockets (run reqs st)) sid = Some sk'
         \<and> set (sock_rooms sk') = set (sock_rooms sk) \<union> set (rooms_joined sid reqs))"
    using run_rooms[of st sid sk reqs] by blast
  have 2: "map_of (sockets (disconnect sid st)) sid = None"
  proof (cases "map_of (sockets st) sid")
    case None
    then show ?thesis by (simp add: disconnect_sockets)
  next
    case (Some a)
    then show ?thesis by (simp add: disconnect_sockets AList.delete_conv')
  qed
  have 3: "Emit sid (ChatMessage \<lparr>data_content = content, data_username = sock_username sender,
                                data_createdAt = t\<rparr>)
          \<in> set (effects_of (chatMessage env s (room, content)) st)"
    if h: "map_of (sockets st) sid = Some sk" "room \<in> set (sock_rooms sk)"
      "map_of (sockets st) s = Some sender" "message_create env = Some t"
      "\<not> startsWith room ''dm:''"
  proof -
    have m: "sid \<in> set (in_room room st)" using h(1,2) by (rule in_room_member)
    obtain rest where "effects_of (chatMessage env s (room, content)) st =
            MessageCreate \<lparr>msg_content = content, msg_room = room,
                           msg_userId = sock_user_id sender, msg_createdAt = t\<rparr> #
            map (\<lambda>r. Emit r (ChatMessage \<lparr>data_content = content,
                          data_username = sock_username sender, data_createdAt = t\<rparr>))
              (in_room room st) @ rest"
      using channel_message_effects[OF h(3,4,5)] by blast
    then show ?thesis using m by simp
  qed
  from 0 1 2 3 show ?thesis by blast
qed

theorem joinRoom_accumulates_witness:
  "''s1'' \<notin> set (map fst (sockets two_users))
   \<and> map_of (sockets (connection ''s1'' (1, ''alice'') two_users)) ''s1'' =
       Some \<lparr>sock_user_id = 1, sock_username = ''alice'', sock_rooms = [''s1'']\<rparr>
   \<and> map_of (sockets alice_outside) ''s1'' =
       Some \<lparr>sock_user_id = 1, sock_username = ''alice'', sock_rooms = [''s1'']\<rparr>
   \<and> Disconnect ''s1'' \<notin> set [JoinRoom unconfigured ''s1'' ''general'', TypingReq ''s1'' ''general'',
                                 JoinRoom unconfigured ''s1'' ''tech'']
   \<and> (\<exists>sk'. map_of (sockets (run [JoinRoom unconfigured ''s1'' ''general'', TypingReq ''s1'' ''general'',
                                     JoinRoom unconfigured ''s1'' ''tech''] alice_outside)) ''s1'' = Some sk'
         \<and> set (sock_rooms sk') = {''s1'', ''general'', ''tech''})
   \<and> map_of (sockets (disconnect ''s1'' alice_outside)) ''s1'' = None
   \<and> map_of (sockets alice_bob_general) ''s1'' =
       Some \<lparr>sock_user_id = 1, sock_username = ''alice'', sock_rooms = [''general'', ''s1'']\<rparr>
   \<and> ''general'' \<in> set [''general'', ''s1'']
   \<and> map_of (sockets alice_bob_general) ''s2'' =
       Some \<lparr>sock_user_id = 2, sock_username = ''bob'', sock_rooms = [''general'', ''s2'']\<rparr>
   \<and> message_create unconfigured = Some 5
   \<and> \<not> startsWith ''general'' ''dm:''
   \<and> Emit ''s1'' (ChatMessage \<lparr>data_content = ''hi'', data_username = ''bob'', data_createdAt = 5\<rparr>)
        \<in> set (effects_of (chatMessage unconfigured ''s2'' (''general'', ''hi'')) alice_bob_general)"
proof -
  have f: "''s1'' \<notin> set (map fst (sockets two_users))" by code_simp
  have h1: "map_of (sockets alice_outside) ''s1'' =
     Some \<lparr>sock_user_id = 1, sock_username = ''alice'', sock_rooms = [''s1'']\<rparr>"
    by code_simp
  have h2: "Disconnect ''s1'' \<notin> set [JoinRoom unconfigured ''s1'' ''general'', TypingReq ''s1'' ''general'',
                                 JoinRoom unconfigured ''s1'' ''tech'']"
    by simp
  have j: "set [''s1''] \<union> set (rooms_joined ''s1'' [JoinRoom unconfigured ''s1'' ''general'', TypingReq ''s1'' ''general'',
                                 JoinRoom unconfigured ''s1'' ''tech'']) = {''s1'', ''general'', ''tech''}"
    by (simp add: insert_commute)
  have g1: "map_of (sockets alice_bob_general) ''s1'' =
       Some \<lparr>sock_user_id = 1, sock_username = ''alice'', sock_rooms = [''general'', ''s1'']\<rparr>"
    by code_simp
  have g2: "''general'' \<in> set [''general'', ''s1'']" by simp
  have g3: "map_of (sockets alice_bob_general) ''s2'' =
       Some \<lparr>sock_user_id = 2, sock_username = ''bob'', sock_rooms = [''general'', ''s2'']\<rparr>"
    by code_simp
  have g4: "message_create unconfigured = Some 5" by (simp add: unconfigured_def)
  have g5: "\<not> startsWith ''general'' ''dm:''" by (simp add: startsWith_def)
  have a0: "map_of (sockets (connection ''s1'' (1, ''alice'') two_users)) ''s1'' =
       Some \<lparr>sock_user_id = 1, sock_username = ''alice'', sock_rooms = [''s1'']\<rparr>"
    using joinRoom_accumulates[where st = two_users and sid = "''s1''" and user = "(1, ''alice'')"] f
    by simp
  note T = joinRoom_accumulates[where st = alice_outside and sid = "''s1''"
      and sk = "\<lparr>sock_user_id = 1, sock_username = ''alice'', sock_rooms = [''s1'']\<rparr>"
      and reqs = "[JoinRoom unconfigured ''s1'' ''general'', TypingReq ''s1'' ''general'',
                   JoinRoom unconfigured ''s1'' ''tech'']"]
  from T h1 h2 have a: "\<exists>sk'. map_of (sockets (run [JoinRoom unconfigured ''s1'' ''general'', TypingReq ''s1'' ''general'',
                                     JoinRoom unconfigured ''s1'' ''tech''] alice_outside)) ''s1'' = Some sk'
         \<and> set (sock_rooms sk') = set (sock_rooms \<lparr>sock_user_id = 1, sock_username = ''alice'', sock_rooms = [''s1'']\<rparr>)
              \<union> set (rooms_joined ''s1'' [JoinRoom unconfigured ''s1'' ''general'', TypingReq ''s1'' ''general'',
                                     JoinRoom unconfigured ''s1'' ''tech''])"
    by blast
  then have a': "\<exists>sk'. map_of (sockets (run [JoinRoom unconfigured ''s1'' ''general'', TypingReq ''s1'' ''general'',
                                     JoinRoom unconfigured ''s1'' ''tech''] alice_outside)) ''s1'' = Some sk'
         \<and> set (sock_rooms sk') = {''s1'', ''general'', ''tech''}"
    using j by simp
  from T have b: "map_of (sockets (disconnect ''s1'' alice_outside)) ''s1'' = None"
    by blast
  have c: "Emit ''s1'' (ChatMessage \<lparr>data_content = ''hi'', data_username = ''bob'', data_createdAt = 5\<rparr>)
        \<in> set (effects_of (chatMessage unconfigured ''s2'' (''general'', ''hi'')) alice_bob_general)"
    using joinRoom_accumulates[where st = alice_bob_general and sid = "''s1''" and s = "''s2''"
        and sk = "\<lparr>sock_user_id = 1, sock_username = ''alice'', sock_rooms = [''general'', ''s1'']\<rparr>"
        and sender = "\<lparr>sock_user_id = 2, sock_username = ''bob'', sock_rooms = [''general'', ''s2'']\<rparr>"
        and room = "''general''" and env = unconfigured and t = 5 and content = "''hi''"]
      g1 g2 g3 g4 g5
    by simp
  from f a0 h1 h2 a' b g1 g2 g3 g4 g5 c show ?thesis by (intro conjI)
qed

text \<open>
  C5 as stated fails: a socket that connects, joins \<open>general\<close> and then joins \<open>random\<close>
  is in both rooms.
\<close>

theorem second_join_keeps_first_room:
  "map_of (sockets (run [Connection ''s1'' (1, ''alice''), JoinRoom unconfigured ''s1'' ''general'',
                         JoinRoom unconfigured ''s1'' ''random''] two_users)) ''s1'' =
     Some \<lparr>sock_user_id = 1, sock_username = ''alice'', sock_rooms = [''random'', ''general'', ''s1'']\<rparr>
   \<and> ''s1'' \<in> set (in_room ''general''
                   (run [Connection ''s1'' (1, ''alice''), JoinRoom unconfigured ''s1'' ''general'',
                         JoinRoom unconfigured ''s1'' ''random''] two_users))
   \<and> ''s1'' \<in> set (in_room ''random''
                   (run [Connection ''s1'' (1, ''alice''), JoinRoom unconfigured ''s1'' ''general'',
                         JoinRoom unconfigured ''s1'' ''random''] two_users))
   \<and> ''general'' \<noteq> ''random''"
proof -
  have 1: "map_of (sockets (run [Connection ''s1'' (1, ''alice''), JoinRoom unconfigured ''s1'' ''general'',
                         JoinRoom unconfigured ''s1'' ''random''] two_users)) ''s1'' =
     Some \<lparr>sock_user_id = 1, sock_username = ''alice'', sock_rooms = [''random'', ''general'', ''s1'']\<rparr>"
    by code_simp
  have 2: "''s1'' \<in> set (in_room ''general''
                   (run [Connection ''s1'' (1, ''alice''), JoinRoom unconfigured ''s1'' ''general'',
                         JoinRoom unconfigured ''s1'' ''random''] two_users))"
    by code_simp
  have 3: "''s1'' \<in> set (in_room ''random''
                   (run [Connection ''s1'' (1, ''alice''), JoinRoom unconfigured ''s1'' ''general'',
                         JoinRoom unconfigured ''s1'' ''random''] two_users))"
    by code_simp
  have 4: "''general'' \<noteq> ''random''" by simp
  from 1 2 3 4 show ?thesis by (intro conjI)
qed

section \<open>The user of the assistant\<close>

lemma getBotUser_users:
  "users (snd (getBotUser env st)) = users st
   \<or> (find_js (\<lambda>u. user_username u = ''AI Bot'') (users st) = None
       \<and> (\<exists>b. user_username b = ''AI Bot'' \<and> users (snd (getBotUser env st)) = users st @ [b]))"
  by (auto simp: getBotUser_def Let_def split: option.splits)

lemma assistant_users:
  "users (assistant env room content st) = users st
   \<or> (find_js (\<lambda>u. user_username u = ''AI Bot'') (users st) = None
       \<and> (\<exists>b. user_username b = ''AI Bot'' \<and> users (assistant env room content st) = users st @ [b]))"
proof (cases "startsWith (toLowerCase content) ''@bot'' \<and> \<not> startsWith room ''dm:''
          \<and> trim (replaceBot content) \<noteq> []")
  case False
  then show ?thesis using assistant_idle[of content room env st] by auto
next
  case True
  define p where "p = trim (replaceBot content)"
  obtain r es where a: "getAIResponse env p st = (r, log_effects (GetAIResponse p # es) st)"
    using getAIResponse_shape by blast
  define st1 where "st1 = log_effects (GetAIResponse p # es) st"
  obtain f st2 where g: "getBotUser env st1 = (f, st2)" by (cases "getBotUser env st1")
  have u1: "users st1 = users st" by (simp add: st1_def)
  have "users (assistant env room content st) = users st2"
    using True a g
    by (auto simp add: assistant_def p_def[symmetric] st1_def[symmetric] Let_def io_to_emit_def
          split: option.splits)
  moreover have "users st2 = users st1
   \<or> (find_js (\<lambda>u. user_username u = ''AI Bot'') (users st1) = None
       \<and> (\<exists>b. user_username b = ''AI Bot'' \<and> users st2 = users st1 @ [b]))"
    using getBotUser_users[of env st1] g by simp
  ultimately show ?thesis using u1 by simp
qed

lemma chatMessage_users:
  "users (chatMessage env sid d st) = users st
   \<or> (find_js (\<lambda>u. user_username u = ''AI Bot'') (users st) = None
       \<and> (\<exists>b. user_username b = ''AI Bot'' \<and> users (chatMessage env sid d st) = users st @ [b]))"
proof (cases "map_of (sockets st) sid")
  case None
  then show ?thesis by (simp add: chatMessage_def)
next
  case (Some sk)
  show ?thesis
  proof (cases "message_create env")
    case None
    then show ?thesis using Some by (simp add: chatMessage_def)
  next
    case (Some t)
    obtain rs where c0: "chatMessage env sid (fst d, snd d) st =
           assistant env (fst d) (snd d)
             (emit_to rs (ChatMessage (payload (sock_username sk)
                  \<lparr>msg_content = snd d, msg_room = fst d, msg_userId = sock_user_id sk, msg_createdAt = t\<rparr>))
               (log_effects [MessageCreate \<lparr>msg_content = snd d, msg_room = fst d, msg_userId = sock_user_id sk, msg_createdAt = t\<rparr>]
                  (st\<lparr>messages := messages st @ [\<lparr>msg_content = snd d, msg_room = fst d, msg_userId = sock_user_id sk, msg_createdAt = t\<rparr>]\<rparr>)))"
      using chatMessage_shape[OF \<open>map_of (sockets st) sid = Some sk\<close> Some, of "fst d" "snd d"]
      by blast
    define st1 where "st1 = emit_to rs (ChatMessage (payload (sock_username sk)
                  \<lparr>msg_content = snd d, msg_room = fst d, msg_userId = sock_user_id sk, msg_createdAt = t\<rparr>))
               (log_effects [MessageCreate \<lparr>msg_content = snd d, msg_room = fst d, msg_userId = sock_user_id sk, msg_createdAt = t\<rparr>]
                  (st\<lparr>messages := messages st @ [\<lparr>msg_content = snd d, msg_room = fst d, msg_userId = sock_user_id sk, msg_createdAt = t\<rparr>]\<rparr>))"
    have c: "chatMessage env sid d st = assistant env (fst d) (snd d) st1"
      using c0 by (simp add: st1_def)
    have "users st1 = users st" by (simp add: st1_def)
    then show ?thesis using assistant_users[of env "fst d" "snd d" st1] c by simp
  qed
qed

lemma step_users:
  "users (step req st) = users st
   \<or> (find_js (\<lambda>u. user_username u = ''AI Bot'') (users st) = None
       \<and> (\<exists>b. user_username b = ''AI Bot'' \<and> users (step req st) = users st @ [b]))"
proof (cases req)
  case (ChatMessageReq env s d)
  then show ?thesis using chatMessage_users[of env s d st] by simp
qed (simp_all add: connection_sockets joinRoom_frame typing_frame disconnect_sockets)

lemma step_bot_unique: "bot_unique st \<Longrightarrow> bot_unique (step req st)"
proof -
  assume b: "bot_unique st"
  consider "users (step req st) = users st"
    | b where "find_js (\<lambda>u. user_username u = ''AI Bot'') (users st) = None"
        "users (step req st) = users st @ [b]"
    using step_users[of req st] by blast
  then show ?thesis
  proof cases
    case 1
    then show ?thesis using b by (simp add: bot_unique_def)
  next
    case 2
    then have "filter (\<lambda>u. user_username u = ''AI Bot'') (users st) = []"
      by (simp add: find_js_None filter_empty_conv)
    then show ?thesis using 2 by (simp add: bot_unique_def)
  qed
qed

lemma run_bot_unique: "bot_unique st \<Longrightarrow> bot_unique (run reqs st)"
  by (induction reqs arbitrary: st) (simp_all add: run_def step_bot_unique)

lemma run_users_stable:
  "find_js (\<lambda>u. user_username u = ''AI Bot'') (users st) = Some b \<Longrightarrow> users (run reqs st) = users st"
proof (induction reqs arbitrary: st)
  case Nil
  then show ?case by (simp add: run_def)
next
  case (Cons req reqs)
  have "users (step req st) = users st" using step_users[of req st] Cons.prems by auto
  then show ?case using Cons by (simp add: run_def)
qed

lemma find_js_append:
  "find_js P (xs @ ys) = (case find_js P xs of None \<Rightarrow> find_js P ys | Some x \<Rightarrow> Some x)"
  by (induction xs) auto

lemma getBotUser_then_found:
  "fst (getBotUser env st) = Some b \<Longrightarrow>
     find_js (\<lambda>u. user_username u = ''AI Bot'') (users (snd (getBotUser env st))) = Some b"
  by (auto simp: getBotUser_def Let_def find_js_append split: if_splits option.splits)

lemma getBotUser_when_found:
  "find_js (\<lambda>u. user_username u = ''AI Bot'') (users st) = Some b \<Longrightarrow> user_findUnique env \<Longrightarrow>
     fst (getBotUser env st) = Some b"
  by (simp add: getBotUser_def Let_def)

text \<open>
  C9, as the code has it. The user of the assistant is never duplicated: a table with at
  most one user named \<open>AI Bot\<close> still has at most one after any run of the server. The
  user is stable: once \<open>getBotUser\<close> has returned a user, it returns the same user after
  any further run, as long as the lookup succeeds. Nothing is cached: every message that
  invokes the assistant looks the user up with \<open>findUnique\<close> again.
\<close>

theorem bot_user_singleton:
  "(bot_unique st \<longrightarrow> bot_unique (run reqs st))
   \<and> (fst (getBotUser env st) = Some b \<and> user_findUnique env' \<longrightarrow>
        fst (getBotUser env' (run reqs (snd (getBotUser env st)))) = Some b)
   \<and> (map_of (sockets st) sid = Some sk \<and> message_create env = Some t
        \<and> startsWith (toLowerCase content) ''@bot'' \<and> \<not> startsWith room ''dm:''
        \<and> trim (replaceBot content) \<noteq> [] \<longrightarrow>
        UserFindUnique ''AI Bot'' \<in> set (effects_of (chatMessage env sid (room, content)) st))"
proof -
  have 1: "bot_unique st \<longrightarrow> bot_unique (run reqs st)"
    using run_bot_unique by blast
  have 2: "fst (getBotUser env' (run reqs (snd (getBotUser env st)))) = Some b"
    if h: "fst (getBotUser env st) = Some b" "user_findUnique env'"
  proof -
    have f: "find_js (\<lambda>u. user_username u = ''AI Bot'') (users (snd (getBotUser env st))) = Some b"
      using getBotUser_then_found[OF h(1)] .
    then have "users (run reqs (snd (getBotUser env st))) = users (snd (getBotUser env st))"
      by (rule run_users_stable)
    then show ?thesis using f h(2) by (simp add: getBotUser_when_found)
  qed
  have 3: "UserFindUnique ''AI Bot'' \<in> set (effects_of (chatMessage env sid (room, content)) st)"
    if h: "map_of (sockets st) sid = Some sk" "message_create env = Some t"
        "startsWith (toLowerCase content) ''@bot''" "\<not> startsWith room ''dm:''"
        "trim (replaceBot content) \<noteq> []"
  proof -
    obtain rs where c0: "chatMessage env sid (room, content) st =
           assistant env room content
             (emit_to rs (ChatMessage (payload (sock_username sk)
                  \<lparr>msg_content = content, msg_room = room, msg_userId = sock_user_id sk, msg_createdAt = t\<rparr>))
               (log_effects [MessageCreate \<lparr>msg_content = content, msg_room = room, msg_userId = sock_user_id sk, msg_createdAt = t\<rparr>]
                  (st\<lparr>messages := messages st @ [\<lparr>msg_content = content, msg_room = room, msg_userId = sock_user_id sk, msg_createdAt = t\<rparr>]\<rparr>)))"
      using chatMessage_shape[OF h(1,2), of room content] by blast
    define st1 where "st1 = emit_to rs (ChatMessage (payload (sock_username sk)
                  \<lparr>msg_content = content, msg_room = room, msg_userId = sock_user_id sk, msg_createdAt = t\<rparr>))
               (log_effects [MessageCreate \<lparr>msg_content = content, msg_room = room, msg_userId = sock_user_id sk, msg_createdAt = t\<rparr>]
                  (st\<lparr>messages := messages st @ [\<lparr>msg_content = content, msg_room = room, msg_userId = sock_user_id sk, msg_createdAt = t\<rparr>]\<rparr>))"
    have c: "chatMessage env sid (room, content) st = assistant env room content st1"
      using c0 by (simp only: st1_def)
    obtain pre where t1: "trace st1 = trace st @ pre" by (simp add: st1_def)
    obtain es us ms where a: "assistant env room content st1 =
         log_effects es (st1\<lparr>users := users st1 @ us, messages := messages st1 @ ms\<rparr>)"
      and a3: "UserFindUnique ''AI Bot'' \<in> set es"
      using assistant_shape[of env room content st1] h(3,4,5) by blast
    have "effects_of (chatMessage env sid (room, content)) st = pre @ es"
      by (rule effects_ofI) (simp add: c a t1)
    then show ?thesis using a3 by simp
  qed
  from 1 2 3 show ?thesis by blast
qed

theorem bot_user_singleton_witness:
  "bot_unique alice_bob_general
   \<and> fst (getBotUser unconfigured alice_bob_general) =
       Some \<lparr>user_id = 3, user_username = ''AI Bot'', user_password_hash = ''hash''\<rparr>
   \<and> user_findUnique unconfigured
   \<and> map_of (sockets alice_bob_general) ''s1'' =
       Some \<lparr>sock_user_id = 1, sock_username = ''alice'', sock_rooms = [''general'', ''s1'']\<rparr>
   \<and> message_create unconfigured = Some 5
   \<and> startsWith (toLowerCase ''@bot hi'') ''@bot''
   \<and> \<not> startsWith ''general'' ''dm:''
   \<and> trim (replaceBot ''@bot hi'') \<noteq> []
   \<and> bot_unique (run [ChatMessageReq unconfigured ''s1'' (''general'', ''@bot hi''),
                       ChatMessageReq unconfigured ''s2'' (''general'', ''@bot again'')] alice_bob_general)
   \<and> fst (getBotUser unconfigured
            (run [ChatMessageReq unconfigured ''s1'' (''general'', ''@bot hi''),
                  ChatMessageReq unconfigured ''s2'' (''general'', ''@bot again'')]
               (snd (getBotUser unconfigured alice_bob_general)))) =
       Some \<lparr>user_id = 3, user_username = ''AI Bot'', user_password_hash = ''hash''\<rparr>
   \<and> UserFindUnique ''AI Bot''
        \<in> set (effects_of (chatMessage unconfigured ''s1'' (''general'', ''@bot hi'')) alice_bob_general)"
proof -
  have h0: "bot_unique alice_bob_general" by code_simp
  have h1: "fst (getBotUser unconfigured alice_bob_general) =
       Some \<lparr>user_id = 3, user_username = ''AI Bot'', user_password_hash = ''hash''\<rparr>"
    by code_simp
  have h2: "user_findUnique unconfigured" by (simp add: unconfigured_def)
  have h3: "map_of (sockets alice_bob_general) ''s1'' =
       Some \<lparr>sock_user_id = 1, sock_username = ''alice'', sock_rooms = [''general'', ''s1'']\<rparr>"
    by code_simp
  have h4: "message_create unconfigured = Some 5" by (simp add: unconfigured_def)
  have h5: "startsWith (toLowerCase ''@bot hi'') ''@bot''" by code_simp
  have h6: "\<not> startsWith ''general'' ''dm:''" by (simp add: startsWith_def)
  have h7: "trim (replaceBot ''@bot hi'') \<noteq> []" by code_simp
  note T = bot_user_singleton[where st = alice_bob_general and env = unconfigured
      and env' = unconfigured and sid = "''s1''" and room = "''general''" and content = "''@bot hi''"
      and t = 5 and b = "\<lparr>user_id = 3, user_username = ''AI Bot'', user_password_hash = ''hash''\<rparr>"
      and sk = "\<lparr>sock_user_id = 1, sock_username = ''alice'', sock_rooms = [''general'', ''s1'']\<rparr>"
      and reqs = "[ChatMessageReq unconfigured ''s1'' (''general'', ''@bot hi''),
                   ChatMessageReq unconfigured ''s2'' (''general'', ''@bot again'')]"]
  from T h0 have a: "bot_unique (run [ChatMessageReq unconfigured ''s1'' (''general'', ''@bot hi''),
                       ChatMessageReq unconfigured ''s2'' (''general'', ''@bot again'')] alice_bob_general)"
    by simp
  from T h1 h2 have b: "fst (getBotUser unconfigured
            (run [ChatMessageReq unconfigured ''s1'' (''general'', ''@bot hi''),
                  ChatMessageReq unconfigured ''s2'' (''general'', ''@bot again'')]
               (snd (getBotUser unconfigured alice_bob_general)))) =
       Some \<lparr>user_id = 3, user_username = ''AI Bot'', user_password_hash = ''hash''\<rparr>"
    by simp
  from T h3 h4 h5 h6 h7 have c: "UserFindUnique ''AI Bot''
        \<in> set (effects_of (chatMessage unconfigured ''s1'' (''general'', ''@bot hi'')) alice_bob_general)"
    by simp
  from h0 h1 h2 h3 h4 h5 h6 h7 a b c show ?thesis by (intro conjI)
qed

text \<open>
  C9 as stated fails: two messages that invoke the assistant make two lookups of the
  user, so the user is not resolved once per process and kept.
\<close>

theorem bot_user_looked_up_twice:
  "count_list
     (trace (run [ChatMessageReq unconfigured ''s1'' (''general'', ''@bot hi''),
                  ChatMessageReq unconfigured ''s1'' (''general'', ''@bot hi'')] alice_bob_general))
     (UserFindUnique ''AI Bot'') = 2"
  by code_simp

section \<open>Well-formed states are kept\<close>

lemma well_formed_iff:
  "well_formed st \<longleftrightarrow>
     distinct (map fst (sockets st))
     \<and> (\<forall>s sk. (s, sk) \<in> set (sockets st) \<longrightarrow> s \<noteq> [] \<and> s \<in> set (sock_rooms sk))
     \<and> (\<forall>u s. (u, s) \<in> set (userSockets st) \<longrightarrow>
            (\<exists>sk. map_of (sockets st) s = Some sk \<and> sock_username sk = u))"
proof -
  have a: "list_all (\<lambda>(s, sk). s \<noteq> [] \<and> s \<in> set (sock_rooms sk)) xs
         \<longleftrightarrow> (\<forall>s sk. (s, sk) \<in> set xs \<longrightarrow> s \<noteq> [] \<and> s \<in> set (sock_rooms sk))"
    for xs :: "(string \<times> sock) list"
    by (auto simp: list_all_iff)
  have b: "list_all (\<lambda>(u, s). case m s of None \<Rightarrow> False | Some sk \<Rightarrow> sock_username sk = u) us
         \<longleftrightarrow> (\<forall>u s. (u, s) \<in> set us \<longrightarrow> (\<exists>sk. m s = Some sk \<and> sock_username sk = u))"
    for us :: "(string \<times> string) list" and m :: "string \<Rightarrow> sock option"
    unfolding list_all_iff by (fastforce split: option.splits)
  show ?thesis unfolding well_formed_def a b ..
qed

lemma well_formed_init: "well_formed init"
  by (simp add: well_formed_def init_def)

lemma set_update_subset: "set (AList.update k v al) \<subseteq> insert (k, v) (set al)"
  by (induction al) auto

lemma set_delete_subset: "set (AList.delete k al) \<subseteq> set al"
  by (induction al) auto

lemma in_delete_key: "(k', v) \<in> set (AList.delete k al) \<Longrightarrow> k' \<noteq> k"
  by (induction al) (auto split: if_splits)

lemma well_formed_connection:
  assumes "well_formed st" "sid \<notin> set (map fst (sockets st))" "sid \<noteq> []"
  shows "well_formed (connection sid user st)"
proof -
  let ?new = "\<lparr>sock_user_id = fst user, sock_username = snd user, sock_rooms = [sid]\<rparr>"
  have w: "distinct (map fst (sockets st))"
    "\<forall>s sk. (s, sk) \<in> set (sockets st) \<longrightarrow> s \<noteq> [] \<and> s \<in> set (sock_rooms sk)"
    "\<forall>u s. (u, s) \<in> set (userSockets st) \<longrightarrow>
            (\<exists>sk. map_of (sockets st) s = Some sk \<and> sock_username sk = u)"
    using assms(1) unfolding well_formed_iff by blast+
  have n: "map_of (sockets st) sid = None" using assms(2) by (simp add: map_of_eq_None_iff)
  have 1: "distinct (map fst (sockets st @ [(sid, ?new)]))" using w(1) assms(2) by simp
  have 2: "\<forall>s sk. (s, sk) \<in> set (sockets st @ [(sid, ?new)]) \<longrightarrow> s \<noteq> [] \<and> s \<in> set (sock_rooms sk)"
    using w(2) assms(3) by auto
  have 3: "\<exists>sk. map_of (sockets st @ [(sid, ?new)]) s = Some sk \<and> sock_username sk = u"
    if "(u, s) \<in> set (AList.update (snd user) sid (userSockets st))" for u s
  proof -
    from that set_update_subset have "(u, s) = (snd user, sid) \<or> (u, s) \<in> set (userSockets st)"
      by fastforce
    then show ?thesis
    proof
      assume "(u, s) = (snd user, sid)"
      then show ?thesis using n by (simp add: map_add_def)
    next
      assume "(u, s) \<in> set (userSockets st)"
      then obtain sk where "map_of (sockets st) s = Some sk" "sock_username sk = u"
        using w(3) by blast
      then show ?thesis by (simp add: map_add_def)
    qed
  qed
  show ?thesis unfolding well_formed_iff connection_sockets using 1 2 3 by blast
qed

lemma well_formed_socket_join:
  assumes "well_formed st"
  shows "well_formed (socket_join s room st)"
proof (cases "map_of (sockets st) s")
  case None
  then show ?thesis using assms by (simp add: socket_join_def)
next
  case (Some sk)
  let ?sk' = "sk\<lparr>sock_rooms := List.insert room (sock_rooms sk)\<rparr>"
  have w: "distinct (map fst (sockets st))"
    "\<forall>s sk. (s, sk) \<in> set (sockets st) \<longrightarrow> s \<noteq> [] \<and> s \<in> set (sock_rooms sk)"
    "\<forall>u s. (u, s) \<in> set (userSockets st) \<longrightarrow>
            (\<exists>sk. map_of (sockets st) s = Some sk \<and> sock_username sk = u)"
    using assms(1) unfolding well_formed_iff by blast+
  have e: "sockets (socket_join s room st) = AList.update s ?sk' (sockets st)"
    "userSockets (socket_join s room st) = userSockets st"
    using Some by (simp_all add: socket_join_def)
  have m: "(s, sk) \<in> set (sockets st)" using Some by (rule map_of_SomeD)
  have 1: "distinct (map fst (AList.update s ?sk' (sockets st)))"
    using w(1) by (rule AList.distinct_update)
  have 2: "s' \<noteq> [] \<and> s' \<in> set (sock_rooms sk')"
    if "(s', sk') \<in> set (AList.update s ?sk' (sockets st))" for s' sk'
  proof -
    from that set_update_subset have "(s', sk') = (s, ?sk') \<or> (s', sk') \<in> set (sockets st)"
      by fastforce
    then show ?thesis using w(2) m by auto
  qed
  have 3: "\<exists>sk'. map_of (AList.update s ?sk' (sockets st)) s' = Some sk' \<and> sock_username sk' = u"
    if h: "(u, s') \<in> set (userSockets st)" for u s'
  proof -
    obtain sk0 where "map_of (sockets st) s' = Some sk0" "sock_username sk0 = u"
      using w(3) h by blast
    then show ?thesis using Some by (cases "s' = s") (simp_all add: AList.update_conv')
  qed
  show ?thesis unfolding well_formed_iff e using 1 2 3 by blast
qed

lemma well_formed_cong:
  "sockets st' = sockets st \<Longrightarrow> userSockets st' = userSockets st \<Longrightarrow> well_formed st \<Longrightarrow> well_formed st'"
  by (simp add: well_formed_def)

lemma well_formed_disconnect:
  assumes "well_formed st"
  shows "well_formed (disconnect s st)"
proof (cases "map_of (sockets st) s")
  case None
  then show ?thesis using assms by (simp add: disconnect_sockets)
next
  case (Some sk)
  have w: "distinct (map fst (sockets st))"
    "\<forall>s sk. (s, sk) \<in> set (sockets st) \<longrightarrow> s \<noteq> [] \<and> s \<in> set (sock_rooms sk)"
    "\<forall>u s. (u, s) \<in> set (userSockets st) \<longrightarrow>
            (\<exists>sk. map_of (sockets st) s = Some sk \<and> sock_username sk = u)"
    using assms(1) unfolding well_formed_iff by blast+
  have e: "sockets (disconnect s st) = AList.delete s (sockets st)"
    "userSockets (disconnect s st) = AList.delete (sock_username sk) (userSockets st)"
    using Some by (simp_all add: disconnect_sockets)
  have 1: "distinct (map fst (AList.delete s (sockets st)))"
    using w(1) by (rule AList.distinct_delete)
  have 2: "\<forall>s' sk'. (s', sk') \<in> set (AList.delete s (sockets st)) \<longrightarrow> s' \<noteq> [] \<and> s' \<in> set (sock_rooms sk')"
    using w(2) set_delete_subset by fast
  have 3: "\<exists>sk'. map_of (AList.delete s (sockets st)) s' = Some sk' \<and> sock_username sk' = u"
    if "(u, s') \<in> set (AList.delete (sock_username sk) (userSockets st))" for u s'
  proof -
    have u: "u \<noteq> sock_username sk" using that by (rule in_delete_key)
    have "(u, s') \<in> set (userSockets st)" using that set_delete_subset by fast
    then obtain sk0 where s0: "map_of (sockets st) s' = Some sk0" "sock_username sk0 = u"
      using w(3) by blast
    then have "s' \<noteq> s" using Some u by auto
    then show ?thesis using s0 by simp
  qed
  show ?thesis unfolding well_formed_iff e using 1 2 3 by blast
qed

lemma well_formed_step: "well_formed st \<Longrightarrow> well_formed (step req st)"
proof (cases req)
  case (Connection s user)
  assume "well_formed st"
  then show ?thesis using Connection well_formed_connection[of st s user] by simp
next
  case (JoinRoom env s room)
  assume "well_formed st"
  then have "well_formed (socket_join s room st)" by (rule well_formed_socket_join)
  moreover have "userSockets (socket_join s room st) = userSockets st"
    by (simp add: socket_join_def split: option.splits)
  ultimately show ?thesis using JoinRoom joinRoom_sockets[of env s room st] joinRoom_frame[of env s room st]
    by (auto intro: well_formed_cong)
next
  case (ChatMessageReq env s d)
  assume "well_formed st"
  then show ?thesis using ChatMessageReq chatMessage_frame[of env s d st] by (auto intro: well_formed_cong)
next
  case (TypingReq s room)
  assume "well_formed st"
  then show ?thesis using TypingReq by (auto intro: well_formed_cong simp: typing_frame)
next
  case (StopTypingReq s room)
  assume "well_formed st"
  then show ?thesis using StopTypingReq by (auto intro: well_formed_cong simp: typing_frame)
next
  case (Disconnect s)
  assume "well_formed st"
  then show ?thesis using Disconnect well_formed_disconnect by simp
qed

lemma well_formed_run: "well_formed st \<Longrightarrow> well_formed (run reqs st)"
  by (induction reqs arbitrary: st) (simp_all add: run_def well_formed_step)

text \<open>Every state that the server reaches from its start is well-formed.\<close>

lemma well_formed_reachable: "well_formed (run reqs init)"
  using well_formed_init by (rule well_formed_run)

section \<open>Delivery of a message\<close>

lemma filter_key_distinct:
  "distinct (map fst xs) \<Longrightarrow> (k, v) \<in> set xs \<Longrightarrow> filter (\<lambda>(s, _). s = k) xs = [(k, v)]"
proof (induction xs)
  case Nil
  then show ?case by simp
next
  case (Cons x xs)
  show ?case
  proof (cases "fst x = k")
    case True
    then have "k \<notin> fst ` set xs" using Cons.prems(1) by auto
    then have "filter (\<lambda>(s, _). s = k) xs = []"
      by (force simp: filter_empty_conv)
    moreover have "x = (k, v)" using Cons.prems True \<open>k \<notin> fst ` set xs\<close>
      by (cases x) force
    ultimately show ?thesis by simp
  next
    case False
    then show ?thesis using Cons by (cases x) auto
  qed
qed

lemma registered_socket:
  assumes "well_formed st" and "map_of (userSockets st) u = Some r"
  shows "\<exists>skr. map_of (sockets st) r = Some skr \<and> sock_username skr = u
           \<and> r \<noteq> [] \<and> r \<in> set (sock_rooms skr)"
proof -
  have "(u, r) \<in> set (userSockets st)" using assms(2) by (rule map_of_SomeD)
  then obtain skr where s: "map_of (sockets st) r = Some skr" "sock_username skr = u"
    using assms(1) by (auto simp: well_formed_def list_all_iff split: option.splits)
  then have "(r, skr) \<in> set (sockets st)" by (auto dest: map_of_SomeD)
  then have "r \<noteq> [] \<and> r \<in> set (sock_rooms skr)"
    using assms(1) by (auto simp: well_formed_def list_all_iff)
  then show ?thesis using s by blast
qed

lemma in_room_own_id:
  assumes "well_formed st" and "private_ids st" and "map_of (sockets st) r = Some skr"
  shows "in_room r st = [r]"
proof -
  have d: "distinct (map fst (sockets st))" using assms(1) by (simp add: well_formed_def)
  have m: "(r, skr) \<in> set (sockets st)" using assms(3) by (rule map_of_SomeD)
  then have own: "r \<in> set (sock_rooms skr)" using assms(1) by (auto simp: well_formed_def list_all_iff)
  have "r \<in> set (sock_rooms sk) \<longleftrightarrow> s = r" if "(s, sk) \<in> set (sockets st)" for s sk
  proof
    assume rin: "r \<in> set (sock_rooms sk)"
    have rid: "r \<in> set (map fst (sockets st))" using m by force
    have "\<forall>x\<in>set (sockets st). case x of (s, sk) \<Rightarrow>
            list_all (\<lambda>r'. r' = s \<or> r' \<notin> set (map fst (sockets st))) (sock_rooms sk)"
      using assms(2) by (simp only: private_ids_def list_all_iff)
    from bspec[OF this that]
    have "\<forall>r'\<in>set (sock_rooms sk). r' = s \<or> r' \<notin> set (map fst (sockets st))"
      by (simp only: list_all_iff prod.case)
    from bspec[OF this rin] have "r = s \<or> r \<notin> set (map fst (sockets st))" .
    with rid show "s = r" by (elim disjE) (rule sym, assumption, erule notE, assumption)
  next
    assume "s = r"
    then have "sk = skr" using d m that by (metis eq_key_imp_eq_value)
    then show "r \<in> set (sock_rooms sk)" using own by simp
  qed
  then have "filter (\<lambda>(s, sk). r \<in> set (sock_rooms sk)) (sockets st)
           = filter (\<lambda>(s, _). s = r) (sockets st)"
    by (intro filter_cong) auto
  then show ?thesis using filter_key_distinct[OF d m] by (simp add: in_room_def)
qed

lemma split_dmRoomName:
  assumes "CHR '':'' \<notin> set a" "CHR '':'' \<notin> set b" "CHR ''-'' \<notin> set a" "CHR ''-'' \<notin> set b"
  shows "\<exists>ps. split (dmRoomName a b) CHR '':'' = ''dm'' # getDMRoomName a b # ps"
    and "split (getDMRoomName a b) CHR ''-'' = sort [a, b]"
proof -
  obtain x y where xy: "sort [a, b] = [x, y]" "getDMRoomName a b = x @ CHR ''-'' # y"
    using getDMRoomName_parts by blast
  have "set [x, y] = {a, b}" using xy(1) sort_two_set[of a b] by simp
  then have n: "CHR '':'' \<notin> set x" "CHR '':'' \<notin> set y" "CHR ''-'' \<notin> set x" "CHR ''-'' \<notin> set y"
    using assms by auto
  have "CHR '':'' \<notin> set (getDMRoomName a b)" using n xy(2) by simp
  then have "split (getDMRoomName a b) CHR '':'' = [getDMRoomName a b]"
    by (rule split_no_sep)
  then show "\<exists>ps. split (dmRoomName a b) CHR '':'' = ''dm'' # getDMRoomName a b # ps"
    by (simp add: dmRoomName_def)
  show "split (getDMRoomName a b) CHR ''-'' = sort [a, b]"
    using n xy by (simp add: split_append_sep split_no_sep)
qed

lemma find_other: "find_js (\<lambda>u. u \<noteq> a) (sort [a, b]) = (if a = b then None else Some b)"
  by (auto simp: sort_two)

lemma deliver_dm:
  assumes "well_formed st" "private_ids st" and a: "sock_username sk = a"
    and "CHR '':'' \<notin> set a" "CHR '':'' \<notin> set b"
    and "CHR ''-'' \<notin> set a" "CHR ''-'' \<notin> set b"
  shows "deliver sid sk (dmRoomName a b) md st =
           Some (emit_to ((case map_of (userSockets st) b of
                             None \<Rightarrow> []
                           | Some r \<Rightarrow> if a = b then [] else [r]) @ [sid])
                   (ChatMessage md) st)"
proof -
  obtain ps where s1: "split (dmRoomName a b) CHR '':'' = ''dm'' # getDMRoomName a b # ps"
    using split_dmRoomName(1)[of a b] assms(4-7) by blast
  have s2: "split (getDMRoomName a b) CHR ''-'' = sort [a, b]"
    using split_dmRoomName(2)[of a b] assms(4-7) by blast
  have p: "startsWith (dmRoomName a b) ''dm:''"
    by (simp add: startsWith_def dmRoomName_def)
  show ?thesis
  proof (cases "a = b \<or> map_of (userSockets st) b = None")
    case True
    then show ?thesis using p s1 s2 a
      by (auto simp: deliver_def find_other socket_emit_def split: option.splits)
  next
    case False
    then obtain r where r: "map_of (userSockets st) b = Some r" and ne: "a \<noteq> b" by auto
    obtain skr where skr: "map_of (sockets st) r = Some skr" "r \<noteq> []"
      using registered_socket[OF assms(1) r] by blast
    have "in_room r st = [r]" using in_room_own_id[OF assms(1,2) skr(1)] .
    then show ?thesis using p s1 s2 r ne skr(2) a
      by (simp add: deliver_def find_other socket_emit_def io_to_emit_def
            emit_to_def log_effects_def)
  qed
qed

text \<open>
  C4, as the code has it. In a well-formed state where no socket has joined a room named
  by another socket's id, let a socket of the user \<open>a\<close> send a message to the direct-message
  room of \<open>a\<close> and \<open>b\<close>, both names without hyphen and colon. The message is stored and then
  emitted to the socket registered for \<open>b\<close> in \<open>userSockets\<close> when there is one (and \<open>b\<close>
  is not \<open>a\<close>), then once to the sender, which is a different socket, and to no other
  socket. A message to a room without the prefix \<open>dm:\<close> is stored and emitted to the
  sockets that are in the room, once each, and whatever the handler emits afterwards goes
  to sockets of that room.
\<close>

theorem direct_message_fanout:
  "(well_formed st \<and> private_ids st \<and> map_of (sockets st) sid = Some sk \<and> sock_username sk = a
      \<and> CHR '':'' \<notin> set a \<and> CHR '':'' \<notin> set b \<and> CHR ''-'' \<notin> set a \<and> CHR ''-'' \<notin> set b
      \<and> message_create env = Some t \<longrightarrow>
      effects_of (chatMessage env sid (dmRoomName a b, content)) st =
        MessageCreate \<lparr>msg_content = content, msg_room = dmRoomName a b,
                       msg_userId = sock_user_id sk, msg_createdAt = t\<rparr> #
        map (\<lambda>s. Emit s (ChatMessage \<lparr>data_content = content, data_username = a,
                                       data_createdAt = t\<rparr>))
          ((case map_of (userSockets st) b of
              None \<Rightarrow> []
            | Some r \<Rightarrow> if a = b then [] else [r]) @ [sid])
      \<and> (\<forall>r. map_of (userSockets st) b = Some r \<and> a \<noteq> b \<longrightarrow> r \<noteq> sid))
   \<and> (map_of (sockets st) sid = Some sk \<and> message_create env = Some t
        \<and> \<not> startsWith room ''dm:'' \<longrightarrow>
        (\<exists>rest. effects_of (chatMessage env sid (room, content)) st =
            MessageCreate \<lparr>msg_content = content, msg_room = room,
                           msg_userId = sock_user_id sk, msg_createdAt = t\<rparr> #
            map (\<lambda>s. Emit s (ChatMessage \<lparr>data_content = content,
                          data_username = sock_username sk, data_createdAt = t\<rparr>))
              (in_room room st) @ rest
          \<and> (\<forall>s e. Emit s e \<in> set rest \<longrightarrow> s \<in> set (in_room room st))))"
proof -
  have A: "effects_of (chatMessage env sid (dmRoomName a b, content)) st =
        MessageCreate \<lparr>msg_content = content, msg_room = dmRoomName a b,
                       msg_userId = sock_user_id sk, msg_createdAt = t\<rparr> #
        map (\<lambda>s. Emit s (ChatMessage \<lparr>data_content = content, data_username = a,
                                       data_createdAt = t\<rparr>))
          ((case map_of (userSockets st) b of
              None \<Rightarrow> []
            | Some r \<Rightarrow> if a = b then [] else [r]) @ [sid])
      \<and> (\<forall>r. map_of (userSockets st) b = Some r \<and> a \<noteq> b \<longrightarrow> r \<noteq> sid)"
    if h: "well_formed st" "private_ids st" "map_of (sockets st) sid = Some sk" "sock_username sk = a"
      "CHR '':'' \<notin> set a" "CHR '':'' \<notin> set b" "CHR ''-'' \<notin> set a" "CHR ''-'' \<notin> set b"
      "message_create env = Some t"
  proof -
    define msg where "msg = \<lparr>msg_content = content, msg_room = dmRoomName a b,
                       msg_userId = sock_user_id sk, msg_createdAt = t\<rparr>"
    define st1 where "st1 = log_effects [MessageCreate msg] (st\<lparr>messages := messages st @ [msg]\<rparr>)"
    define rcp where "rcp = (case map_of (userSockets st) b of
              None \<Rightarrow> []
            | Some r \<Rightarrow> if a = b then [] else [r]) @ [sid]"
    have w1: "well_formed st1" "private_ids st1"
      using h(1,2) by (simp_all add: st1_def well_formed_def private_ids_def)
    have u1: "userSockets st1 = userSockets st" by (simp add: st1_def)
    have d: "deliver sid sk (dmRoomName a b) (payload a msg) st1 =
               Some (emit_to rcp (ChatMessage (payload a msg)) st1)"
      using deliver_dm[OF w1 h(4-8), of sid "payload a msg"] by (simp add: rcp_def u1)
    have p: "startsWith (dmRoomName a b) ''dm:''"
      by (simp add: startsWith_def dmRoomName_def)
    have c: "chatMessage env sid (dmRoomName a b, content) st =
               emit_to rcp (ChatMessage (payload a msg)) st1"
      using h(3,4,9) d p
      by (simp add: chatMessage_def Let_def msg_def[symmetric] st1_def[symmetric] assistant_idle)
    have e: "effects_of (chatMessage env sid (dmRoomName a b, content)) st =
               MessageCreate msg # map (\<lambda>s. Emit s (ChatMessage (payload a msg))) rcp"
      by (rule effects_ofI) (simp add: c st1_def)
    have pd: "payload a msg = \<lparr>data_content = content, data_username = a, data_createdAt = t\<rparr>"
      by (simp add: payload_def msg_def)
    have ne: "r \<noteq> sid" if r: "map_of (userSockets st) b = Some r" "a \<noteq> b" for r
    proof
      assume "r = sid"
      then have "sock_username sk = b"
        using registered_socket[OF h(1) r(1)] h(3) by auto
      then show False using h(4) r(2) by simp
    qed
    note e' = e[unfolded pd rcp_def]
    show ?thesis using e' ne unfolding msg_def by blast
  qed
  have B: "\<exists>rest. effects_of (chatMessage env sid (room, content)) st =
            MessageCreate \<lparr>msg_content = content, msg_room = room,
                           msg_userId = sock_user_id sk, msg_createdAt = t\<rparr> #
            map (\<lambda>s. Emit s (ChatMessage \<lparr>data_content = content,
                          data_username = sock_username sk, data_createdAt = t\<rparr>))
              (in_room room st) @ rest
          \<and> (\<forall>s e. Emit s e \<in> set rest \<longrightarrow> s \<in> set (in_room room st))"
    if h: "map_of (sockets st) sid = Some sk" "message_create env = Some t"
       "\<not> startsWith room ''dm:''"
  proof -
    define msg where "msg = \<lparr>msg_content = content, msg_room = room,
                           msg_userId = sock_user_id sk, msg_createdAt = t\<rparr>"
    define st1 where "st1 = emit_to (in_room room st) (ChatMessage (payload (sock_username sk) msg))
               (log_effects [MessageCreate msg] (st\<lparr>messages := messages st @ [msg]\<rparr>))"
    have c: "chatMessage env sid (room, content) st = assistant env room content st1"
      using chatMessage_shape[OF h(1,2), of room content] h(3)
      unfolding msg_def st1_def by auto
    have t1: "trace st1 = trace st @ MessageCreate msg #
                map (\<lambda>s. Emit s (ChatMessage (payload (sock_username sk) msg))) (in_room room st)"
      by (simp add: st1_def)
    have r1: "in_room room st1 = in_room room st" by (simp add: st1_def)
    obtain es us ms where a: "assistant env room content st1 =
         log_effects es (st1\<lparr>users := users st1 @ us, messages := messages st1 @ ms\<rparr>)"
      and a2: "\<forall>s e. Emit s e \<in> set es \<longrightarrow> s \<in> set (in_room room st1)"
      using assistant_shape[of env room content st1] by blast
    have pd: "payload (sock_username sk) msg = \<lparr>data_content = content,
                          data_username = sock_username sk, data_createdAt = t\<rparr>"
      by (simp add: payload_def msg_def)
    have "effects_of (chatMessage env sid (room, content)) st =
            MessageCreate msg # map (\<lambda>s. Emit s (ChatMessage \<lparr>data_content = content,
                          data_username = sock_username sk, data_createdAt = t\<rparr>))
              (in_room room st) @ es"
      by (rule effects_ofI) (simp add: c a t1 pd)
    then show ?thesis using a2 r1 unfolding msg_def by auto
  qed
  from A B show ?thesis by blast
qed

theorem direct_message_fanout_witness:
  "well_formed three_online \<and> private_ids three_online
   \<and> map_of (sockets three_online) ''s1'' =
       Some \<lparr>sock_user_id = 1, sock_username = ''alice'', sock_rooms = [''s1'']\<rparr>
   \<and> CHR '':'' \<notin> set ''alice'' \<and> CHR '':'' \<notin> set ''bob''
   \<and> CHR ''-'' \<notin> set ''alice'' \<and> CHR ''-'' \<notin> set ''bob''
   \<and> message_create unconfigured = Some 5
   \<and> map_of (userSockets three_online) ''bob'' = Some ''s2''
   \<and> effects_of (chatMessage unconfigured ''s1'' (dmRoomName ''alice'' ''bob'', ''hi'')) three_online =
       [MessageCreate \<lparr>msg_content = ''hi'', msg_room = dmRoomName ''alice'' ''bob'',
                       msg_userId = 1, msg_createdAt = 5\<rparr>,
        Emit ''s2'' (ChatMessage \<lparr>data_content = ''hi'', data_username = ''alice'', data_createdAt = 5\<rparr>),
        Emit ''s1'' (ChatMessage \<lparr>data_content = ''hi'', data_username = ''alice'', data_createdAt = 5\<rparr>)]
   \<and> map_of (sockets three_online) ''s3'' =
       Some \<lparr>sock_user_id = 3, sock_username = ''carol'', sock_rooms = [''general'', ''s3'']\<rparr>
   \<and> \<not> startsWith ''general'' ''dm:''
   \<and> in_room ''general'' three_online = [''s3'']
   \<and> (\<exists>rest. effects_of (chatMessage unconfigured ''s3'' (''general'', ''hello'')) three_online =
          MessageCreate \<lparr>msg_content = ''hello'', msg_room = ''general'',
                         msg_userId = 3, msg_createdAt = 5\<rparr> #
          map (\<lambda>s. Emit s (ChatMessage \<lparr>data_content = ''hello'', data_username = ''carol'',
                                         data_createdAt = 5\<rparr>)) [''s3''] @ rest
        \<and> (\<forall>s e. Emit s e \<in> set rest \<longrightarrow> s \<in> set [''s3'']))"
proof -
  have w: "well_formed three_online" "private_ids three_online" by code_simp+
  have h1: "map_of (sockets three_online) ''s1'' =
       Some \<lparr>sock_user_id = 1, sock_username = ''alice'', sock_rooms = [''s1'']\<rparr>"
    by code_simp
  have n: "CHR '':'' \<notin> set ''alice''" "CHR '':'' \<notin> set ''bob''"
     "CHR ''-'' \<notin> set ''alice''" "CHR ''-'' \<notin> set ''bob''" by simp_all
  have m: "message_create unconfigured = Some 5" by (simp add: unconfigured_def)
  have b: "map_of (userSockets three_online) ''bob'' = Some ''s2''" by code_simp
  have h3: "map_of (sockets three_online) ''s3'' =
       Some \<lparr>sock_user_id = 3, sock_username = ''carol'', sock_rooms = [''general'', ''s3'']\<rparr>"
    by code_simp
  have g: "\<not> startsWith ''general'' ''dm:''" by (simp add: startsWith_def)
  have r: "in_room ''general'' three_online = [''s3'']" by code_simp
  have ab: "''alice'' \<noteq> ''bob''" by simp
  have dm: "effects_of (chatMessage unconfigured ''s1'' (dmRoomName ''alice'' ''bob'', ''hi'')) three_online =
       [MessageCreate \<lparr>msg_content = ''hi'', msg_room = dmRoomName ''alice'' ''bob'',
                       msg_userId = 1, msg_createdAt = 5\<rparr>,
        Emit ''s2'' (ChatMessage \<lparr>data_content = ''hi'', data_username = ''alice'', data_createdAt = 5\<rparr>),
        Emit ''s1'' (ChatMessage \<lparr>data_content = ''hi'', data_username = ''alice'', data_createdAt = 5\<rparr>)]"
    using direct_message_fanout[where st = three_online and sid = "''s1''" and a = "''alice''"
        and b = "''bob''" and env = unconfigured and t = 5 and content = "''hi''"
        and sk = "\<lparr>sock_user_id = 1, sock_username = ''alice'', sock_rooms = [''s1'']\<rparr>"]
      w h1 n m b ab
    by simp
  have ch: "\<exists>rest. effects_of (chatMessage unconfigured ''s3'' (''general'', ''hello'')) three_online =
          MessageCreate \<lparr>msg_content = ''hello'', msg_room = ''general'',
                         msg_userId = 3, msg_createdAt = 5\<rparr> #
          map (\<lambda>s. Emit s (ChatMessage \<lparr>data_content = ''hello'', data_username = ''carol'',
                                         data_createdAt = 5\<rparr>)) [''s3''] @ rest
        \<and> (\<forall>s e. Emit s e \<in> set rest \<longrightarrow> s \<in> set [''s3''])"
    using direct_message_fanout[where st = three_online and sid = "''s3''" and env = unconfigured
        and t = 5 and content = "''hello''" and room = "''general''"
        and sk = "\<lparr>sock_user_id = 3, sock_username = ''carol'', sock_rooms = [''general'', ''s3'']\<rparr>"]
      h3 m g r
    by simp
  from w h1 n m b dm h3 g r ch show ?thesis by (intro conjI)
qed

text \<open>
  C4 as stated fails. The user \<open>a-b\<close> writes to the direct-message room with \<open>c\<close>, who is
  online: the message goes to the socket of \<open>a\<close> and not to the one of \<open>c\<close>. Carol has
  joined the room named by the id of Bob's socket: she receives what Alice sends to the
  room of Alice and Bob. Carol sends to the room of Alice and Bob: Alice receives it and
  Bob does not.
\<close>

theorem direct_message_misrouted:
  "well_formed hyphenated \<and> private_ids hyphenated
   \<and> map_of (userSockets hyphenated) ''c'' = Some ''s3''
   \<and> effects_of (chatMessage unconfigured ''s1'' (dmRoomName ''a-b'' ''c'', ''hi'')) hyphenated =
       [MessageCreate \<lparr>msg_content = ''hi'', msg_room = ''dm:a-b-c'', msg_userId = 1, msg_createdAt = 5\<rparr>,
        Emit ''s2'' (ChatMessage \<lparr>data_content = ''hi'', data_username = ''a-b'', data_createdAt = 5\<rparr>),
        Emit ''s1'' (ChatMessage \<lparr>data_content = ''hi'', data_username = ''a-b'', data_createdAt = 5\<rparr>)]
   \<and> effects_of (chatMessage unconfigured ''s1'' (dmRoomName ''alice'' ''bob'', ''hi'')) carol_listening =
       [MessageCreate \<lparr>msg_content = ''hi'', msg_room = ''dm:alice-bob'', msg_userId = 1, msg_createdAt = 5\<rparr>,
        Emit ''s2'' (ChatMessage \<lparr>data_content = ''hi'', data_username = ''alice'', data_createdAt = 5\<rparr>),
        Emit ''s3'' (ChatMessage \<lparr>data_content = ''hi'', data_username = ''alice'', data_createdAt = 5\<rparr>),
        Emit ''s1'' (ChatMessage \<lparr>data_content = ''hi'', data_username = ''alice'', data_createdAt = 5\<rparr>)]
   \<and> effects_of (chatMessage unconfigured ''s3'' (dmRoomName ''alice'' ''bob'', ''hi'')) three_online =
       [MessageCreate \<lparr>msg_content = ''hi'', msg_room = ''dm:alice-bob'', msg_userId = 3, msg_createdAt = 5\<rparr>,
        Emit ''s1'' (ChatMessage \<lparr>data_content = ''hi'', data_username = ''carol'', data_createdAt = 5\<rparr>),
        Emit ''s3'' (ChatMessage \<lparr>data_content = ''hi'', data_username = ''carol'', data_createdAt = 5\<rparr>)]"
proof -
  have 1: "well_formed hyphenated" "private_ids hyphenated" by code_simp+
  have 2: "map_of (userSockets hyphenated) ''c'' = Some ''s3''" by code_simp
  have 3: "effects_of (chatMessage unconfigured ''s1'' (dmRoomName ''a-b'' ''c'', ''hi'')) hyphenated =
       [MessageCreate \<lparr>msg_content = ''hi'', msg_room = ''dm:a-b-c'', msg_userId = 1, msg_createdAt = 5\<rparr>,
        Emit ''s2'' (ChatMessage \<lparr>data_content = ''hi'', data_username = ''a-b'', data_createdAt = 5\<rparr>),
        Emit ''s1'' (ChatMessage \<lparr>data_content = ''hi'', data_username = ''a-b'', data_createdAt = 5\<rparr>)]"
    by code_simp
  have 4: "effects_of (chatMessage unconfigured ''s1'' (dmRoomName ''alice'' ''bob'', ''hi'')) carol_listening =
       [MessageCreate \<lparr>msg_content = ''hi'', msg_room = ''dm:alice-bob'', msg_userId = 1, msg_createdAt = 5\<rparr>,
        Emit ''s2'' (ChatMessage \<lparr>data_content = ''hi'', data_username = ''alice'', data_createdAt = 5\<rparr>),
        Emit ''s3'' (ChatMessage \<lparr>data_content = ''hi'', data_username = ''alice'', data_createdAt = 5\<rparr>),
        Emit ''s1'' (ChatMessage \<lparr>data_content = ''hi'', data_username = ''alice'', data_createdAt = 5\<rparr>)]"
    by code_simp
  have 5: "effects_of (chatMessage unconfigured ''s3'' (dmRoomName ''alice'' ''bob'', ''hi'')) three_online =
       [MessageCreate \<lparr>msg_content = ''hi'', msg_room = ''dm:alice-bob'', msg_userId = 3, msg_createdAt = 5\<rparr>,
        Emit ''s1'' (ChatMessage \<lparr>data_content = ''hi'', data_username = ''carol'', data_createdAt = 5\<rparr>),
        Emit ''s3'' (ChatMessage \<lparr>data_content = ''hi'', data_username = ''carol'', data_createdAt = 5\<rparr>)]"
    by code_simp
  from 1 2 3 4 5 show ?thesis by (intro conjI)
qed

end
